theory Spec2Isabelle
  imports Complex_Main "HOL-Library.Word"
begin

section \<open>Strings and numbers of the server\<close>

text \<open>
  A string is the list of the bytes of its UTF-8 text, so every character of the ASCII range
  is one \<^typ>\<open>char\<close> and the characters beyond it are two to four.
\<close>

definition nl :: char where
  "nl = CHR 0x0A"

text \<open>\<^verbatim>\<open>String(n)\<close> for a whole number \<open>n \<ge> 0\<close>: its decimal digits.\<close>

definition digit_char :: "nat \<Rightarrow> char" where
  "digit_char d = ''0123456789'' ! d"

fun show_nat :: "nat \<Rightarrow> string" where
  "show_nat n = (if n < 10 then [digit_char n] else show_nat (n div 10) @ [digit_char (n mod 10)])"

declare show_nat.simps [simp del]

text \<open>\<^verbatim>\<open>Math.round\<close>: the nearest whole number, a half rounding up.\<close>

definition js_round :: "rat \<Rightarrow> int" where
  "js_round x = \<lfloor>x + 1 / 2\<rfloor>"

text \<open>
  The numbers that the scheduler handles are the doubles that \<^verbatim>\<open>parseInt\<close> makes of a
  run of digits. \<open>Whole n\<close> is a whole number below \<open>2 ^ 53\<close> in absolute value, which
  the double holds exactly: its quotient by 60000 is taken in \<^typ>\<open>rat\<close>, where the
  comparisons with zero and with the entries of the table and the rounding to the nearest
  whole number come out as in the double arithmetic of the source. \<open>Rounded n\<close> is the
  double that the engine makes of the whole number \<open>n\<close> from \<open>2 ^ 53\<close> on in absolute
  value: it has the sign of \<open>n\<close>, and it may be an infinity.
\<close>

datatype number = Whole int | Rounded int

definition to_number :: "int \<Rightarrow> number" where
  "to_number n = (if \<bar>n\<bar> < 2 ^ 53 then Whole n else Rounded n)"

text \<open>\<^verbatim>\<open>x > 0\<close>\<close>

definition positive :: "number \<Rightarrow> bool" where
  "positive x = (case x of Whole n \<Rightarrow> 0 < n | Rounded n \<Rightarrow> 0 < n)"

text \<open>
  What the model leaves to the engine and to the cron library. \<open>big_minutes n\<close> is the
  text that the template of \<open>intervalToCron\<close> prints for
  \<^verbatim>\<open>Math.max(1, Math.round(intervalMs / 60000))\<close> when \<open>intervalMs\<close> is the double made of
  \<open>n \<ge> 2 ^ 53\<close>; it is a rounded value, in the notation with an exponent from
  \<open>10 ^ 21\<close> on. \<open>cron_accepts e\<close> tells whether \<^verbatim>\<open>cron.schedule\<close> takes the expression
  \<open>e\<close>; it throws otherwise.
\<close>

record platform =
  big_minutes :: "int \<Rightarrow> string"
  cron_accepts :: "string \<Rightarrow> bool"

section \<open>The scheduler's trigger expression\<close>

text \<open>The expression beyond the range of the exact whole numbers.\<close>

definition cron_beyond :: "platform \<Rightarrow> int \<Rightarrow> string option" where
  "cron_beyond pf n =
     (if n \<le> 0 then None else Some (''*/'' @ big_minutes pf n @ '' * * * *''))"

text \<open>The steps of \<open>intervalToCron\<close> on a number that the double holds exactly.\<close>

definition cron_of_minutes :: "rat \<Rightarrow> string option" where
  "cron_of_minutes minutes =
     (if minutes \<le> 0 then None
      else if minutes = 1 then Some ''* * * * *''
      else if minutes = 5 then Some ''*/5 * * * *''
      else if minutes = 15 then Some ''*/15 * * * *''
      else if minutes = 30 then Some ''*/30 * * * *''
      else if minutes = 60 then Some ''0 * * * *''
      else if minutes = 360 then Some ''0 */6 * * *''
      else if minutes = 720 then Some ''0 */12 * * *''
      else if minutes = 1440 then Some ''0 0 * * *''
      else if minutes = 10080 then Some ''0 0 * * 0''
      else if minutes = 20160 then Some ''0 0 1,15 * *''
      else Some (''*/'' @ show_nat (nat (max 1 (js_round minutes))) @ '' * * * *''))"

definition intervalToCron :: "platform \<Rightarrow> number \<Rightarrow> string option" where
  "intervalToCron pf intervalMs =
     (case intervalMs of
        Whole ms \<Rightarrow>
          if \<bar>ms\<bar> < 2 ^ 53 then cron_of_minutes (of_int ms / 60000) else cron_beyond pf ms
      | Rounded n \<Rightarrow> cron_beyond pf n)"

text \<open>The minute counts that the comparisons of \<open>intervalToCron\<close> list.\<close>

definition cron_table :: "int list" where
  "cron_table = [1, 5, 15, 30, 60, 360, 720, 1440, 10080, 20160]"

section \<open>The version parser\<close>

text \<open>\<^verbatim>\<open>markdown.split('\n')\<close> and \<^verbatim>\<open>content.join('\n')\<close>.\<close>

fun split_nl :: "string \<Rightarrow> string list" where
  "split_nl [] = [[]]"
| "split_nl (c # cs) =
     (if c = nl then [] # split_nl cs
      else (case split_nl cs of [] \<Rightarrow> [[c]] | l # ls \<Rightarrow> (c # l) # ls))"

fun join_nl :: "string list \<Rightarrow> string" where
  "join_nl [] = []"
| "join_nl [l] = l"
| "join_nl (l # ls) = l @ nl # join_nl ls"

text \<open>
  The characters of the class \<^verbatim>\<open>\s\<close> of a JavaScript regular expression, each as its
  UTF-8 bytes: tab, line feed, vertical tab, form feed, carriage return, space, U+00A0,
  U+1680, U+2000 to U+200A, U+2028, U+2029, U+202F, U+205F, U+3000 and U+FEFF.
\<close>

definition space_chars :: "string list" where
  "space_chars =
     [[CHR 0x09], [CHR 0x0A], [CHR 0x0B], [CHR 0x0C], [CHR 0x0D], [CHR 0x20],
      [CHR 0xC2, CHR 0xA0], [CHR 0xE1, CHR 0x9A, CHR 0x80],
      [CHR 0xE2, CHR 0x80, CHR 0x80], [CHR 0xE2, CHR 0x80, CHR 0x81],
      [CHR 0xE2, CHR 0x80, CHR 0x82], [CHR 0xE2, CHR 0x80, CHR 0x83],
      [CHR 0xE2, CHR 0x80, CHR 0x84], [CHR 0xE2, CHR 0x80, CHR 0x85],
      [CHR 0xE2, CHR 0x80, CHR 0x86], [CHR 0xE2, CHR 0x80, CHR 0x87],
      [CHR 0xE2, CHR 0x80, CHR 0x88], [CHR 0xE2, CHR 0x80, CHR 0x89],
      [CHR 0xE2, CHR 0x80, CHR 0x8A], [CHR 0xE2, CHR 0x80, CHR 0xA8],
      [CHR 0xE2, CHR 0x80, CHR 0xA9], [CHR 0xE2, CHR 0x80, CHR 0xAF],
      [CHR 0xE2, CHR 0x81, CHR 0x9F], [CHR 0xE3, CHR 0x80, CHR 0x80],
      [CHR 0xEF, CHR 0xBB, CHR 0xBF]]"

text \<open>One character of the class \<^verbatim>\<open>\s\<close> at the head of the string: what follows it.\<close>

definition match_space :: "string \<Rightarrow> string option" where
  "match_space s =
     (case filter (\<lambda>w. take (length w) s = w) space_chars of
        [] \<Rightarrow> None
      | w # _ \<Rightarrow> Some (drop (length w) s))"

text \<open>
  The greedy \<^verbatim>\<open>\s*\<close>. No character of the class can start what the pattern asks for
  next, so giving characters back never helps and the longest run is the only match.
\<close>

function skip_spaces :: "string \<Rightarrow> string" where
  "skip_spaces s = (case match_space s of None \<Rightarrow> s | Some r \<Rightarrow> skip_spaces r)"
  by pat_completeness auto
termination
proof (relation "measure length")
  show "wf (measure length)" by simp
next
  fix s r :: string
  assume a: "match_space s = Some r"
  then obtain w ws where f: "filter (\<lambda>w. take (length w) s = w) space_chars = w # ws"
    and r: "r = drop (length w) s"
    by (auto simp: match_space_def split: list.splits)
  have "w \<in> set (filter (\<lambda>w. take (length w) s = w) space_chars)"
    by (simp only: f list.set_intros)
  then have w: "w \<in> set space_chars" "take (length w) s = w" by simp_all
  from w(1) have "w \<noteq> []" by (auto simp: space_chars_def)
  with w(2) have "s \<noteq> []" by auto
  with \<open>w \<noteq> []\<close> r show "(r, s) \<in> measure length" by simp
qed

declare skip_spaces.simps [simp del]

definition is_digit :: "char \<Rightarrow> bool" where
  "is_digit c = (c \<in> set ''0123456789'')"

text \<open>The class \<^verbatim>\<open>[a-zA-Z0-9.]\<close> of the prerelease suffix.\<close>

definition is_prerelease_char :: "char \<Rightarrow> bool" where
  "is_prerelease_char c =
     (c \<in> set (''abcdefghijklmnopqrstuvwxyz'' @ ''ABCDEFGHIJKLMNOPQRSTUVWXYZ'' @ ''0123456789'' @ ''.''))"

text \<open>
  The capture group \<^verbatim>\<open>(\d+\.\d+\.\d+(?:-[a-zA-Z0-9.]+)?)\<close> at the head of the string.
  Each \<^verbatim>\<open>\d+\<close> is followed by something that is no digit, and the suffix and the closing
  bracket are optional, so the greedy choice is the match that the engine reports.
\<close>

definition match_version :: "string \<Rightarrow> string option" where
  "match_version s =
     (let major = takeWhile is_digit s; s1 = dropWhile is_digit s in
      if major = [] then None
      else case s1 of [] \<Rightarrow> None | c1 # s2 \<Rightarrow>
        if c1 \<noteq> CHR ''.'' then None
        else let minor = takeWhile is_digit s2; s3 = dropWhile is_digit s2 in
          if minor = [] then None
          else case s3 of [] \<Rightarrow> None | c2 # s4 \<Rightarrow>
            if c2 \<noteq> CHR ''.'' then None
            else let patch = takeWhile is_digit s4; s5 = dropWhile is_digit s4 in
              if patch = [] then None
              else let pre = (case s5 of [] \<Rightarrow> []
                              | c3 # s6 \<Rightarrow>
                                  if c3 = CHR ''-'' \<and> takeWhile is_prerelease_char s6 \<noteq> []
                                  then c3 # takeWhile is_prerelease_char s6 else [])
                in Some (major @ CHR ''.'' # minor @ CHR ''.'' # patch @ pre))"

text \<open>
  \<^verbatim>\<open>line.match(/^##\s+\[?(\d+\.\d+\.\d+(?:-[a-zA-Z0-9.]+)?)\]?/)\<close>: the first capture
  group when the line matches, \<open>None\<close> when it does not.
\<close>

definition versionMatch :: "string \<Rightarrow> string option" where
  "versionMatch line =
     (case line of
        a # b # rest \<Rightarrow>
          if a = CHR 0x23 \<and> b = CHR 0x23 then
            (case match_space rest of
               None \<Rightarrow> None
             | Some r \<Rightarrow>
                 let r1 = skip_spaces r;
                     r2 = (case r1 of [] \<Rightarrow> r1 | c # r' \<Rightarrow> if c = CHR 0x5B then r' else r1)
                 in match_version r2)
          else None
      | _ \<Rightarrow> None)"

record parsed =
  version :: string
  content :: string

text \<open>
  The loop of \<open>parseLatestVersion\<close> over the lines, with its three variables; the
  \<^verbatim>\<open>break\<close> ends the recursion.
\<close>

fun parse_loop :: "string list \<Rightarrow> string \<Rightarrow> string list \<Rightarrow> bool \<Rightarrow> string \<times> string list" where
  "parse_loop [] ver cont capturing = (ver, cont)"
| "parse_loop (line # lines) ver cont capturing =
     (case versionMatch line of
        Some v \<Rightarrow>
          if capturing then (ver, cont)
          else parse_loop lines v (cont @ [line]) True
      | None \<Rightarrow>
          if capturing then parse_loop lines ver (cont @ [line]) capturing
          else parse_loop lines ver cont capturing)"

definition parseLatestVersion :: "string \<Rightarrow> parsed option" where
  "parseLatestVersion markdown =
     (case parse_loop (split_nl markdown) [] [] False of
        (ver, cont) \<Rightarrow>
          if ver \<noteq> [] then Some \<lparr>version = ver, content = join_nl cont\<rparr> else None)"

text \<open>A line that is no version header.\<close>

definition no_header :: "string \<Rightarrow> bool" where
  "no_header line = (versionMatch line = None)"

section \<open>The audio codec\<close>

text \<open>
  A buffer is the list of its bytes. The model is of the buffers below \<open>2 ^ 31\<close> bytes:
  the samples that \<open>pcmToWav\<close> is given are decoded from a string of base64, and the
  engine holds no string that decodes to as many bytes.
\<close>

type_synonym byte = "8 word"
type_synonym buffer = "byte list"

datatype exn = Error string | RangeError string | TypeError string

definition bytes_of :: "string \<Rightarrow> byte list" where
  "bytes_of s = map (\<lambda>c. of_nat (of_char c)) s"

text \<open>\<^verbatim>\<open>Buffer.alloc(n)\<close>: \<open>n\<close> zero bytes.\<close>

definition alloc :: "nat \<Rightarrow> buffer" where
  "alloc n = replicate n 0"

text \<open>Overwriting a buffer from an offset on, never beyond its end.\<close>

definition put :: "byte list \<Rightarrow> nat \<Rightarrow> buffer \<Rightarrow> buffer" where
  "put bs off buf = take off buf @ take (length buf - off) bs @ drop (off + length bs) buf"

text \<open>\<^verbatim>\<open>buf.write(string, offset)\<close>: an offset beyond the buffer raises.\<close>

definition write_str :: "string \<Rightarrow> nat \<Rightarrow> buffer \<Rightarrow> exn + buffer" where
  "write_str s off buf =
     (if length buf < off then Inl (RangeError ''ERR_OUT_OF_RANGE'')
      else Inr (put (bytes_of s) off buf))"

definition le16 :: "nat \<Rightarrow> byte list" where
  "le16 v = [of_nat v, of_nat (v div 256)]"

definition le32 :: "nat \<Rightarrow> byte list" where
  "le32 v = [of_nat v, of_nat (v div 256), of_nat (v div 65536), of_nat (v div 16777216)]"

text \<open>
  \<^verbatim>\<open>buf.writeUInt16LE(value, offset)\<close> and \<^verbatim>\<open>buf.writeUInt32LE(value, offset)\<close>: a value
  that does not fit the field, or a field that does not fit the buffer, raises
  \<^verbatim>\<open>ERR_OUT_OF_RANGE\<close>.
\<close>

definition writeUInt16LE :: "nat \<Rightarrow> nat \<Rightarrow> buffer \<Rightarrow> exn + buffer" where
  "writeUInt16LE v off buf =
     (if 2 ^ 16 \<le> v \<or> length buf < off + 2 then Inl (RangeError ''ERR_OUT_OF_RANGE'')
      else Inr (put (le16 v) off buf))"

definition writeUInt32LE :: "nat \<Rightarrow> nat \<Rightarrow> buffer \<Rightarrow> exn + buffer" where
  "writeUInt32LE v off buf =
     (if 2 ^ 32 \<le> v \<or> length buf < off + 4 then Inl (RangeError ''ERR_OUT_OF_RANGE'')
      else Inr (put (le32 v) off buf))"

text \<open>A run of writes on one buffer; the first that raises ends it.\<close>

fun writes :: "(buffer \<Rightarrow> exn + buffer) list \<Rightarrow> buffer \<Rightarrow> exn + buffer" where
  "writes [] buf = Inr buf"
| "writes (w # ws) buf = (case w buf of Inl e \<Rightarrow> Inl e | Inr buf' \<Rightarrow> writes ws buf')"

definition pcmToWav :: "buffer \<Rightarrow> exn + buffer" where
  "pcmToWav pcmData =
     (let sampleRate = 24000;
          numChannels = 1;
          bitsPerSample = 16;
          byteRate = sampleRate * numChannels * (bitsPerSample div 8);
          blockAlign = numChannels * (bitsPerSample div 8);
          dataSize = length pcmData;
          headerSize = 44;
          buffer = alloc (headerSize + dataSize)
      in case writes
           [write_str ''RIFF'' 0,
            writeUInt32LE (36 + dataSize) 4,
            write_str ''WAVE'' 8,
            write_str ''fmt '' 12,
            writeUInt32LE 16 16,
            writeUInt16LE 1 20,
            writeUInt16LE numChannels 22,
            writeUInt32LE sampleRate 24,
            writeUInt32LE byteRate 28,
            writeUInt16LE blockAlign 32,
            writeUInt16LE bitsPerSample 34,
            write_str ''data'' 36,
            writeUInt32LE dataSize 40] buffer of
           Inl e \<Rightarrow> Inl e
         | Inr buffer' \<Rightarrow> Inr (put pcmData headerSize buffer'))"

text \<open>Reading a buffer: the bytes from \<open>i\<close> up to \<open>j\<close>, and an unsigned little-endian field.\<close>

definition slice :: "nat \<Rightarrow> nat \<Rightarrow> buffer \<Rightarrow> buffer" where
  "slice i j buf = take (j - i) (drop i buf)"

fun le_value :: "byte list \<Rightarrow> nat" where
  "le_value [] = 0"
| "le_value (b # bs) = unat b + 256 * le_value bs"

text \<open>The header that \<open>pcmToWav\<close> writes before \<open>n\<close> bytes of samples, field by field.\<close>

definition wav_header :: "nat \<Rightarrow> byte list" where
  "wav_header n =
     bytes_of ''RIFF'' @ le32 (36 + n) @ bytes_of ''WAVE'' @ bytes_of ''fmt '' @ le32 16 @
     le16 1 @ le16 1 @ le32 24000 @ le32 48000 @ le16 2 @ le16 16 @ bytes_of ''data'' @ le32 n"

section \<open>The stores\<close>

text \<open>
  Each table of the database is the list of its rows in the order of their row
  identifiers, which is the order of insertion. The statements of the source are taken to
  succeed. \<^verbatim>\<open>CURRENT_TIMESTAMP\<close> and \<^verbatim>\<open>Date.now()\<close> are arguments.
\<close>

record history_row =
  row_version :: string
  detected_at :: nat
  notified :: bool
  source_id :: "string option"

record ChangelogSource =
  src_id :: string
  name :: string
  url :: string
  is_active :: bool
  last_version :: "string option"
  last_checked_at :: "nat option"

record audio_row =
  audio_id :: string
  text_hash :: string
  voice :: string
  audio_data :: buffer
  created_at :: nat

text \<open>
  What the server writes to the console and asks of the services outside.
  \<open>ConsoleLogMinutes\<close> is a line with the quotient of a number by 60000, as JavaScript
  prints it, between two texts.
\<close>

record attachment =
  filename :: string
  attached :: buffer

record email =
  mail_from :: string
  mail_to :: "string list"
  subject :: string
  html :: string
  attachments :: "attachment list"

datatype event =
    ConsoleLog string
  | ConsoleLogMinutes string number string
  | ConsoleError string exn
  | HttpGet string
  | AnalyzerCall string
  | TTSCall string string
  | MailerCall email

record server =
  audio_cache :: "audio_row list"
  settings :: "(string \<times> string) list"
  changelog_history :: "history_row list"
  changelog_sources :: "ChangelogSource list"
  cronJob :: "nat option"
  currentCronExpression :: "string option"
  cron_tasks :: "nat list"
  cron_created :: nat
  dispatched :: nat
  console :: "event list"

text \<open>
  \<open>cron_tasks\<close> are the tasks that the cron library holds scheduled, \<open>cron_created\<close>
  counts the tasks created so far and names the next one, and \<open>dispatched\<close> counts the
  runs of \<open>checkForNewChangelog\<close> that \<open>startMonitoring\<close> starts without awaiting them.
\<close>

definition emit :: "event \<Rightarrow> server \<Rightarrow> server" where
  "emit e st = st\<lparr>console := console st @ [e]\<rparr>"

definition console_log :: "string \<Rightarrow> server \<Rightarrow> server" where
  "console_log msg st = emit (ConsoleLog msg) st"

text \<open>\<^verbatim>\<open>SELECT value FROM settings WHERE key = ?\<close>\<close>

definition get_setting :: "string \<Rightarrow> server \<Rightarrow> string option" where
  "get_setting k st = map_of (settings st) k"

text \<open>\<^verbatim>\<open>INSERT OR REPLACE INTO settings (key, value)\<close>, \<open>key\<close> being the primary key.\<close>

definition put_setting :: "string \<Rightarrow> string \<Rightarrow> server \<Rightarrow> server" where
  "put_setting k v st = st\<lparr>settings := filter (\<lambda>kv. fst kv \<noteq> k) (settings st) @ [(k, v)]\<rparr>"


text \<open>
  \<^verbatim>\<open>ORDER BY detected_at DESC LIMIT 1\<close>: a row of the greatest \<open>detected_at\<close>. SQL leaves
  open which one among equals; the model takes the first of them.
\<close>

fun newest :: "history_row list \<Rightarrow> history_row option" where
  "newest [] = None"
| "newest (r # rs) =
     (case newest rs of
        None \<Rightarrow> Some r
      | Some r' \<Rightarrow> if detected_at r < detected_at r' then Some r' else Some r)"

definition getLastKnownVersion :: "string option \<Rightarrow> server \<Rightarrow> string option" where
  "getLastKnownVersion sourceId st =
     (case sourceId of
        None \<Rightarrow> map_option row_version (newest (changelog_history st))
      | Some i \<Rightarrow>
          if i = [] then map_option row_version (newest (changelog_history st))
          else map_option row_version
                 (newest (filter (\<lambda>r. source_id r = Some i) (changelog_history st))))"

text \<open>
  \<open>saveVersion\<close>. The table \<open>changelog_history\<close> is created with
  \<^verbatim>\<open>version TEXT PRIMARY KEY\<close>, and the later \<^verbatim>\<open>ADD COLUMN source_id\<close> leaves that key as
  it is, so \<^verbatim>\<open>INSERT OR IGNORE\<close> skips the row when any row has the version.
\<close>

definition saveVersion :: "string \<Rightarrow> string \<Rightarrow> nat \<Rightarrow> server \<Rightarrow> server" where
  "saveVersion ver sourceId now st =
     st\<lparr>changelog_history :=
          (if ver \<in> set (map row_version (changelog_history st)) then changelog_history st
           else changelog_history st @
             [\<lparr>row_version = ver, detected_at = now, notified = False, source_id = Some sourceId\<rparr>]),
        changelog_sources :=
          map (\<lambda>s. if src_id s = sourceId
                   then s\<lparr>last_version := Some ver, last_checked_at := Some now\<rparr> else s)
            (changelog_sources st)\<rparr>"

definition markVersionNotified :: "string \<Rightarrow> string \<Rightarrow> server \<Rightarrow> server" where
  "markVersionNotified ver sourceId st =
     st\<lparr>changelog_history :=
          map (\<lambda>r. if row_version r = ver \<and> source_id r = Some sourceId
                   then r\<lparr>notified := True\<rparr> else r)
            (changelog_history st)\<rparr>"

text \<open>A row of the history for a version and a source.\<close>

definition has_record :: "string \<Rightarrow> string \<Rightarrow> server \<Rightarrow> bool" where
  "has_record ver sourceId st =
     list_ex (\<lambda>r. row_version r = ver \<and> source_id r = Some sourceId) (changelog_history st)"

subsection \<open>The audio cache\<close>

text \<open>
  \<^verbatim>\<open>POST /api/audio\<close>: the status of the answer and the new state. The decoding of
  base64 is an argument. The primary key of \<open>audio_cache\<close> is \<open>id\<close>.
\<close>

definition post_audio ::
  "(string \<Rightarrow> buffer) \<Rightarrow> string \<Rightarrow> string \<Rightarrow> string \<Rightarrow> nat \<Rightarrow> nat \<Rightarrow> server \<Rightarrow> nat \<times> server" where
  "post_audio base64 textHash voice' audioData date_now now st =
     (if textHash = [] \<or> voice' = [] \<or> audioData = [] then (400, st)
      else
        let buffer = base64 audioData;
            i = textHash @ ''_'' @ voice' @ ''_'' @ show_nat date_now
        in (200, st\<lparr>audio_cache :=
                     filter (\<lambda>r. audio_id r \<noteq> i) (audio_cache st) @
                       [\<lparr>audio_id = i, text_hash = textHash, voice = voice',
                         audio_data = buffer, created_at = now\<rparr>]\<rparr>))"

text \<open>
  \<^verbatim>\<open>GET /api/audio/:textHash/:voice\<close>: the payload of the first row that matches, or
  \<open>None\<close> for the answer 404.
\<close>

definition get_audio :: "string \<Rightarrow> string \<Rightarrow> server \<Rightarrow> buffer option" where
  "get_audio textHash voice' st =
     map_option audio_data
       (find (\<lambda>r. text_hash r = textHash \<and> voice r = voice') (audio_cache st))"

definition audio_entries :: "string \<Rightarrow> string \<Rightarrow> server \<Rightarrow> audio_row list" where
  "audio_entries textHash voice' st =
     filter (\<lambda>r. text_hash r = textHash \<and> voice r = voice') (audio_cache st)"

section \<open>The scheduler\<close>

definition stopMonitoring :: "server \<Rightarrow> server" where
  "stopMonitoring st =
     (case cronJob st of
        None \<Rightarrow> st
      | Some t \<Rightarrow>
          console_log ''[Monitor] Cron job stopped''
            (st\<lparr>cron_tasks := removeAll t (cron_tasks st),
                cronJob := None,
                currentCronExpression := None\<rparr>))"

text \<open>
  \<open>startMonitoring\<close>. The expression is stored and the first check is started, not
  awaited, before \<^verbatim>\<open>cron.schedule\<close> is called. When the library takes the expression it
  hands out a new task; when it throws, the function is left with the expression stored
  and with no task.
\<close>

definition startMonitoring :: "platform \<Rightarrow> number \<Rightarrow> server \<Rightarrow> (exn + unit) \<times> server" where
  "startMonitoring pf intervalMs st0 =
     (let st1 = stopMonitoring st0 in
      case intervalToCron pf intervalMs of
        None \<Rightarrow> (Inr (), console_log ''[Monitor] Monitoring disabled (no valid interval)'' st1)
      | Some cronExpression \<Rightarrow>
          let st2 = emit (ConsoleLogMinutes
                           (''[Monitor] Starting cron job: '' @ [CHR 0x22] @ cronExpression @
                            [CHR 0x22] @ '' (every '')
                           intervalMs '' minutes)'') st1;
              st3 = st2\<lparr>currentCronExpression := Some cronExpression\<rparr>;
              st4 = st3\<lparr>dispatched := dispatched st3 + 1\<rparr>
          in if cron_accepts pf cronExpression then
               let st5 = st4\<lparr>cronJob := Some (cron_created st4),
                             cron_tasks := cron_tasks st4 @ [cron_created st4],
                             cron_created := cron_created st4 + 1\<rparr>
               in (Inr (), console_log ''[Monitor] Cron job started successfully'' st5)
             else (Inl (Error ''cron.schedule''), st4))"

text \<open>
  \<^verbatim>\<open>parseInt(string)\<close> with no radix: leading white space, a sign, the prefix
  \<^verbatim>\<open>0x\<close> for base 16, then the longest run of digits; \<open>None\<close> stands for \<^verbatim>\<open>NaN\<close>.
  The result is the double made of the whole number that the digits denote.
\<close>

definition digit_values :: "(char \<times> nat) list" where
  "digit_values =
     [(CHR ''0'', 0), (CHR ''1'', 1), (CHR ''2'', 2), (CHR ''3'', 3), (CHR ''4'', 4),
      (CHR ''5'', 5), (CHR ''6'', 6), (CHR ''7'', 7), (CHR ''8'', 8), (CHR ''9'', 9),
      (CHR ''a'', 10), (CHR ''b'', 11), (CHR ''c'', 12), (CHR ''d'', 13), (CHR ''e'', 14),
      (CHR ''f'', 15), (CHR ''A'', 10), (CHR ''B'', 11), (CHR ''C'', 12), (CHR ''D'', 13),
      (CHR ''E'', 14), (CHR ''F'', 15)]"

definition digit_of :: "nat \<Rightarrow> char \<Rightarrow> nat option" where
  "digit_of radix c =
     (case map_of digit_values c of
        None \<Rightarrow> None
      | Some d \<Rightarrow> if d < radix then Some d else None)"

definition digits_value :: "nat \<Rightarrow> string \<Rightarrow> nat" where
  "digits_value radix z = foldl (\<lambda>acc c. acc * radix + (case digit_of radix c of None \<Rightarrow> 0 | Some d \<Rightarrow> d)) 0 z"

definition parse_digits :: "nat \<Rightarrow> string \<Rightarrow> int option" where
  "parse_digits radix s =
     (if takeWhile (\<lambda>c. digit_of radix c \<noteq> None) s = [] then None
      else Some (int (digits_value radix (takeWhile (\<lambda>c. digit_of radix c \<noteq> None) s))))"

definition parse_radix :: "string \<Rightarrow> int option" where
  "parse_radix s =
     (if take 2 s = ''0x'' \<or> take 2 s = ''0X'' then parse_digits 16 (drop 2 s)
      else parse_digits 10 s)"

definition parse_signed :: "string \<Rightarrow> int option" where
  "parse_signed s =
     (if take 1 s = ''-'' then map_option uminus (parse_radix (drop 1 s))
      else if take 1 s = ''+'' then parse_radix (drop 1 s)
      else parse_radix s)"

definition parseInt :: "string \<Rightarrow> number option" where
  "parseInt s = map_option to_number (parse_signed (skip_spaces s))"

text \<open>\<^verbatim>\<open>enabledRow?.value === 'true'\<close> and \<^verbatim>\<open>parseInt(intervalRow?.value || '0') || 0\<close>.\<close>

definition monitoring_enabled :: "server \<Rightarrow> bool" where
  "monitoring_enabled st = (get_setting ''emailNotificationsEnabled'' st = Some ''true'')"

definition monitoring_interval :: "server \<Rightarrow> number" where
  "monitoring_interval st =
     (case parseInt (case get_setting ''notificationCheckInterval'' st of
                       None \<Rightarrow> ''0''
                     | Some v \<Rightarrow> if v = [] then ''0'' else v) of
        None \<Rightarrow> Whole 0
      | Some n \<Rightarrow> n)"

text \<open>
  \<^verbatim>\<open>POST /api/settings/:key\<close> with a string as the value. The handler catches nothing:
  what \<open>startMonitoring\<close> throws leaves it before the answer is written.
\<close>

definition post_setting :: "platform \<Rightarrow> string \<Rightarrow> string \<Rightarrow> server \<Rightarrow> (exn + unit) \<times> server" where
  "post_setting pf k v st0 =
     (let st1 = put_setting k v st0 in
      if k = ''emailNotificationsEnabled'' \<or> k = ''notificationCheckInterval'' then
        (let enabled = monitoring_enabled st1;
             interval = monitoring_interval st1
         in if enabled \<and> positive interval then startMonitoring pf interval st1
            else (Inr (), stopMonitoring st1))
      else (Inr (), st1))"

text \<open>
  The cron library takes the expression that the handler hands it: the one of the stored
  interval, when the stored flag is set and the stored interval is above 0.
\<close>

definition schedule_accepted :: "platform \<Rightarrow> server \<Rightarrow> bool" where
  "schedule_accepted pf st =
     (if monitoring_enabled st \<and> positive (monitoring_interval st)
      then (case intervalToCron pf (monitoring_interval st) of
              None \<Rightarrow> True
            | Some e \<Rightarrow> cron_accepts pf e)
      else True)"

text \<open>
  The scheduler holds what the cron library runs: the only scheduled task is the one in
  \<open>cronJob\<close>, the handle of the next task is new, and there is no expression without a
  task.
\<close>

definition scheduler_ok :: "server \<Rightarrow> bool" where
  "scheduler_ok st =
     (cron_tasks st = (case cronJob st of None \<Rightarrow> [] | Some t \<Rightarrow> [t]) \<and>
      list_all (\<lambda>t. t < cron_created st) (cron_tasks st) \<and>
      (case cronJob st of None \<Rightarrow> currentCronExpression st = None | Some t \<Rightarrow> True))"

section \<open>The notification email\<close>

record removal =
  feature :: string
  severity :: string
  why :: string

record categories =
  critical_breaking_changes :: "string list"
  removals :: "removal list"
  major_features :: "string list"
  important_fixes :: "string list"
  new_slash_commands :: "string list"
  terminal_improvements :: "string list"
  api_changes :: "string list"

text \<open>
  The interface \<open>ChangelogEmailRequest\<close>; its field \<open>version\<close> is \<open>data_version\<close> here.
  What the analyzer returns is taken to have this shape.
\<close>

record ChangelogEmailRequest =
  data_version :: string
  tldr :: string
  categories :: categories
  action_items :: "string list"
  sentiment :: string

text \<open>The template of \<open>generateEmailHtml\<close> up to the opening tag of the heading.\<close>

definition html_head :: string where
  "html_head = join_nl
     [[],
      ''<!DOCTYPE html>'',
      ''<html>'',
      ''<head>'',
      ''  <meta charset='' @ [CHR 0x22] @ ''utf-8'' @ [CHR 0x22] @ ''>'',
      ''  <meta name='' @ [CHR 0x22] @ ''viewport'' @ [CHR 0x22] @ '' content='' @ [CHR 0x22] @ ''width=device-width, initial-scale=1.0'' @ [CHR 0x22] @ ''>'',
      ''  <style>'',
      ''    body { font-family: -apple-system, BlinkMacSystemFont, '' @ [CHR 0x27] @ ''Segoe UI'' @ [CHR 0x27] @ '', Roboto, sans-serif; line-height: 1.6; color: #333; max-width: 600px; margin: 0 auto; padding: 20px; }'',
      ''    h1 { color: #d97706; }'',
      ''    h2 { color: #374151; margin-top: 24px; }'',
      ''    .tldr { background: #fef3c7; padding: 16px; border-radius: 8px; margin-bottom: 24px; }'',
      ''    .section { margin-bottom: 20px; }'',
      ''    .breaking { border-left: 4px solid #ef4444; padding-left: 12px; background: #fef2f2; padding: 12px; border-radius: 0 8px 8px 0; }'',
      ''    .feature { border-left: 4px solid #14b8a6; padding-left: 12px; }'',
      ''    .fix { border-left: 4px solid #6b7280; padding-left: 12px; }'',
      ''    ul { padding-left: 20px; }'',
      ''    li { margin-bottom: 8px; }'',
      ''    .audio-note { background: #e0f2fe; padding: 12px; border-radius: 8px; margin-top: 16px; }'',
      ''    .footer { margin-top: 32px; padding-top: 16px; border-top: 1px solid #e5e7eb; font-size: 14px; color: #6b7280; }'',
      ''  </style>'',
      ''</head>'',
      ''<body>'',
      ''  <h1>'']"

text \<open>From the end of the heading to the summary.\<close>

definition html_tldr_open :: string where
  "html_tldr_open = join_nl
     ['' Released</h1>'',
      [],
      ''  <div class='' @ [CHR 0x22] @ ''tldr'' @ [CHR 0x22] @ ''>'',
      ''    <strong>TL;DR:</strong> '']"

text \<open>The end of the summary block.\<close>

definition html_tldr_close :: string where
  "html_tldr_close = join_nl
     [[],
      ''  </div>'',
      []]"

text \<open>The opening of the block that line 1103 of the source appends, up to its list items.\<close>

definition html_breaking_open :: string where
  "html_breaking_open = join_nl
     [[],
      ''  <div class='' @ [CHR 0x22] @ ''section breaking'' @ [CHR 0x22] @ ''>'',
      ''    <h2>'' @ [CHR 0xEF, CHR 0xA3, CHR 0xBF, CHR 0xC3, CHR 0xBC, CHR 0xC3, CHR 0xB6, CHR 0xC2, CHR 0xAE] @ '' Critical Breaking Changes</h2>'',
      ''    <ul>'',
      ''      '']"

text \<open>The opening of the block that line 1114 of the source appends, up to its list items.\<close>

definition html_removals_open :: string where
  "html_removals_open = join_nl
     [[],
      ''  <div class='' @ [CHR 0x22] @ ''section'' @ [CHR 0x22] @ ''>'',
      ''    <h2>'' @ [CHR 0xE2, CHR 0x80, CHR 0x9A, CHR 0xC3, CHR 0xB6, CHR 0xE2, CHR 0x80, CHR 0xA0, CHR 0xC3, CHR 0x94, CHR 0xE2, CHR 0x88, CHR 0x8F, CHR 0xC3, CHR 0xA8] @ '' Removals</h2>'',
      ''    <ul>'',
      ''      '']"

text \<open>The opening of the block that line 1125 of the source appends, up to its list items.\<close>

definition html_features_open :: string where
  "html_features_open = join_nl
     [[],
      ''  <div class='' @ [CHR 0x22] @ ''section feature'' @ [CHR 0x22] @ ''>'',
      ''    <h2>'' @ [CHR 0xE2, CHR 0x80, CHR 0x9A, CHR 0xC3, CHR 0xBA, CHR 0xC2, CHR 0xAE] @ '' Major Features</h2>'',
      ''    <ul>'',
      ''      '']"

text \<open>The opening of the block that line 1136 of the source appends, up to its list items.\<close>

definition html_fixes_open :: string where
  "html_fixes_open = join_nl
     [[],
      ''  <div class='' @ [CHR 0x22] @ ''section fix'' @ [CHR 0x22] @ ''>'',
      ''    <h2>'' @ [CHR 0xEF, CHR 0xA3, CHR 0xBF, CHR 0xC3, CHR 0xBC, CHR 0xC3, CHR 0xAE, CHR 0xC3, CHR 0x9F] @ '' Important Fixes</h2>'',
      ''    <ul>'',
      ''      '']"

text \<open>The opening of the block that line 1147 of the source appends, up to its list items.\<close>

definition html_actions_open :: string where
  "html_actions_open = join_nl
     [[],
      ''  <div class='' @ [CHR 0x22] @ ''section'' @ [CHR 0x22] @ ''>'',
      ''    <h2>'' @ [CHR 0xEF, CHR 0xA3, CHR 0xBF, CHR 0xC3, CHR 0xBC, CHR 0xC3, CHR 0xAC, CHR 0xC3, CHR 0xA3] @ '' Action Items</h2>'',
      ''    <ul>'',
      ''      '']"

text \<open>The closing of each of these blocks.\<close>

definition html_section_close :: string where
  "html_section_close = join_nl
     [[],
      ''    </ul>'',
      ''  </div>'',
      []]"

text \<open>The audio note and the footer.\<close>

definition html_footer :: string where
  "html_footer = join_nl
     [[],
      ''  <div class='' @ [CHR 0x22] @ ''audio-note'' @ [CHR 0x22] @ ''>'',
      ''    '' @ [CHR 0xEF, CHR 0xA3, CHR 0xBF, CHR 0xC3, CHR 0xBC, CHR 0xC3, CHR 0xA9, CHR 0xC3, CHR 0x9F] @ '' <strong>Audio summary attached!</strong> Listen to the changelog summary on the go.'',
      ''  </div>'',
      [],
      ''  <div class='' @ [CHR 0x22] @ ''footer'' @ [CHR 0x22] @ ''>'',
      ''    <p>This email was automatically sent by Claude Code Changelog Tracker</p>'',
      ''  </div>'',
      ''</body>'',
      ''</html>'',
      []]"

text \<open>The symbol that opens the subject line, as the bytes of the source file.\<close>

definition subject_emoji :: string where
  "subject_emoji = [CHR 0xEF, CHR 0xA3, CHR 0xBF, CHR 0xC3, CHR 0xBC, CHR 0xC3, CHR 0x9C, CHR 0xC3, CHR 0xAF]"

definition sentimentEmoji :: "string \<Rightarrow> string" where
  "sentimentEmoji s =
     (if s = ''positive'' then [CHR 0xEF, CHR 0xA3, CHR 0xBF, CHR 0xC3, CHR 0xBC, CHR 0xC3, CHR 0xA9, CHR 0xC3, CHR 0xA2]
      else if s = ''critical'' then [CHR 0xE2, CHR 0x80, CHR 0x9A, CHR 0xC3, CHR 0xB6, CHR 0xE2, CHR 0x80, CHR 0xA0, CHR 0xC3, CHR 0x94, CHR 0xE2, CHR 0x88, CHR 0x8F, CHR 0xC3, CHR 0xA8]
      else [CHR 0xEF, CHR 0xA3, CHR 0xBF, CHR 0xC3, CHR 0xBC, CHR 0xC3, CHR 0xAC, CHR 0xC3, CHR 0xA3])"

text \<open>\<^verbatim>\<open>items.map((item) => `<li>${item}</li>`).join('')\<close>\<close>

definition list_items :: "string list \<Rightarrow> string" where
  "list_items items = concat (map (\<lambda>item. ''<li>'' @ item @ ''</li>'') items)"

definition removal_items :: "removal list \<Rightarrow> string" where
  "removal_items rs =
     concat (map (\<lambda>r. ''<li><strong>'' @ feature r @ ''</strong> ('' @ severity r @ ''): '' @
                       why r @ ''</li>'') rs)"

definition generateEmailHtml :: "ChangelogEmailRequest \<Rightarrow> string" where
  "generateEmailHtml data =
     html_head @ sentimentEmoji (sentiment data) @ '' Claude Code '' @ data_version data @
     html_tldr_open @ tldr data @ html_tldr_close @
     (if critical_breaking_changes (categories data) \<noteq> []
      then html_breaking_open @ list_items (critical_breaking_changes (categories data)) @
           html_section_close else []) @
     (if removals (categories data) \<noteq> []
      then html_removals_open @ removal_items (removals (categories data)) @
           html_section_close else []) @
     (if major_features (categories data) \<noteq> []
      then html_features_open @ list_items (major_features (categories data)) @
           html_section_close else []) @
     (if important_fixes (categories data) \<noteq> []
      then html_fixes_open @ list_items (important_fixes (categories data)) @
           html_section_close else []) @
     (if action_items data \<noteq> []
      then html_actions_open @ list_items (action_items data) @ html_section_close else []) @
     html_footer"

section \<open>The services outside and the pipeline\<close>

text \<open>
  The services answer as the environment says. Each request is an event on the console
  list, and the environment answers by the position of that event, so two requests need
  not get the same answer. An answer \<open>Inl\<close> is a fault that the call raises.
  \<open>http_get\<close> is the status and the body of the response, \<open>gemini_analyze\<close> is what
  \<open>analyzeChangelog\<close> makes of the answer of the model, \<open>gemini_tts\<close> is the decoded
  audio of the answer, \<open>resend_send\<close> is \<^verbatim>\<open>response.ok\<close> of the mail service, and
  \<open>current_timestamp\<close> is the clock of the database.
\<close>

record env =
  GEMINI_API_KEY :: "string option"
  RESEND_API_KEY :: "string option"
  NOTIFY_EMAIL :: "string option"
  http_get :: "nat \<Rightarrow> string \<Rightarrow> exn + nat \<times> string"
  gemini_analyze :: "nat \<Rightarrow> string \<Rightarrow> exn + ChangelogEmailRequest option"
  gemini_tts :: "nat \<Rightarrow> string \<Rightarrow> string \<Rightarrow> exn + buffer option"
  resend_send :: "nat \<Rightarrow> email \<Rightarrow> exn + bool"
  current_timestamp :: "nat \<Rightarrow> nat"

text \<open>A variable of the environment that is set and not empty.\<close>

definition truthy :: "string option \<Rightarrow> bool" where
  "truthy v = (case v of None \<Rightarrow> False | Some s \<Rightarrow> s \<noteq> [])"

definition fetchChangelog :: "env \<Rightarrow> string \<Rightarrow> server \<Rightarrow> (exn + string) \<times> server" where
  "fetchChangelog env u st =
     (case http_get env (length (console st)) u of
        Inl e \<Rightarrow> (Inl e, emit (HttpGet u) st)
      | Inr response \<Rightarrow>
          if 200 \<le> fst response \<and> fst response < 300 then (Inr (snd response), emit (HttpGet u) st)
          else (Inl (Error (''Failed to fetch changelog: '' @ show_nat (fst response))),
                emit (HttpGet u) st))"

definition analyzeChangelog ::
  "env \<Rightarrow> string \<Rightarrow> server \<Rightarrow> (exn + ChangelogEmailRequest option) \<times> server" where
  "analyzeChangelog env changelogText st =
     (if truthy (GEMINI_API_KEY env)
      then (gemini_analyze env (length (console st)) changelogText,
            emit (AnalyzerCall changelogText) st)
      else (Inr None, st))"

definition generateTTSAudio ::
  "env \<Rightarrow> string \<Rightarrow> string \<Rightarrow> server \<Rightarrow> (exn + buffer option) \<times> server" where
  "generateTTSAudio env txt voice' st =
     (if truthy (GEMINI_API_KEY env)
      then (case gemini_tts env (length (console st)) txt voice' of
              Inl e \<Rightarrow> (Inl e, emit (TTSCall txt voice') st)
            | Inr None \<Rightarrow> (Inr None, emit (TTSCall txt voice') st)
            | Inr (Some pcmBuffer) \<Rightarrow>
                (case pcmToWav pcmBuffer of
                   Inl e \<Rightarrow> (Inl e, emit (TTSCall txt voice') st)
                 | Inr wav \<Rightarrow> (Inr (Some wav), emit (TTSCall txt voice') st)))
      else (Inr None, st))"

text \<open>The payload that \<open>sendEmailWithAttachment\<close> posts to the mail service.\<close>

definition emailPayload :: "env \<Rightarrow> ChangelogEmailRequest \<Rightarrow> buffer option \<Rightarrow> email" where
  "emailPayload env data audioBuffer =
     \<lparr>mail_from = ''Changelog Tracker <onboarding@resend.dev>'',
      mail_to = [case NOTIFY_EMAIL env of None \<Rightarrow> [] | Some a \<Rightarrow> a],
      subject = subject_emoji @ '' Claude Code '' @ data_version data @ '' Released'',
      html = generateEmailHtml data,
      attachments =
        (case audioBuffer of
           None \<Rightarrow> []
         | Some b \<Rightarrow>
             [\<lparr>filename = ''claude-code-'' @ data_version data @ ''-summary.wav'',
               attached = b\<rparr>])\<rparr>"

definition sendEmailWithAttachment ::
  "env \<Rightarrow> ChangelogEmailRequest \<Rightarrow> buffer option \<Rightarrow> server \<Rightarrow> (exn + bool) \<times> server" where
  "sendEmailWithAttachment env data audioBuffer st =
     (if truthy (RESEND_API_KEY env) \<and> truthy (NOTIFY_EMAIL env)
      then (resend_send env (length (console st)) (emailPayload env data audioBuffer),
            emit (MailerCall (emailPayload env data audioBuffer)) st)
      else (Inr False, st))"

text \<open>
  The block under \<^verbatim>\<open>try\<close> of \<open>checkSourceForNewChangelog\<close>, cut at its stages, the
  last one first; \<open>Inl\<close> is what the block throws. \<open>send_stage\<close> is the email and the
  mark, \<open>audio_stage\<close> the audio before it, \<open>notify_stages\<close> the analysis before that,
  \<open>record_stage\<close> the comparison, the record and the gate, and \<open>checkSource_try\<close> the
  whole block from the fetch on.
\<close>

definition send_stage ::
  "env \<Rightarrow> ChangelogSource \<Rightarrow> parsed \<Rightarrow> ChangelogEmailRequest \<Rightarrow> buffer option \<Rightarrow> server \<Rightarrow>
   (exn + unit) \<times> server" where
  "send_stage env source latest analysis audioBuffer st4 =
     (let st5 = console_log (''[Monitor] Sending notification email for '' @ name source @ ''...'')
                  st4
      in case sendEmailWithAttachment env analysis audioBuffer st5 of
           (r6, st6) \<Rightarrow>
             (case r6 of
                Inl e \<Rightarrow> (Inl e, st6)
              | Inr sent \<Rightarrow>
                  if sent
                  then (Inr (),
                        console_log (''[Monitor] Notification sent for '' @ name source @ '' '' @
                                     version latest)
                          (markVersionNotified (version latest) (src_id source) st6))
                  else (Inr (),
                        console_log (''[Monitor] Failed to send notification for '' @ name source)
                          st6)))"

definition audio_stage ::
  "env \<Rightarrow> ChangelogSource \<Rightarrow> parsed \<Rightarrow> ChangelogEmailRequest \<Rightarrow> server \<Rightarrow>
   (exn + unit) \<times> server" where
  "audio_stage env source latest analysis st2 =
     (let st3 = console_log (''[Monitor] Generating audio for '' @ name source @ ''...'') st2;
          voice' = (case get_setting ''notificationVoice'' st3 of
                      None \<Rightarrow> ''Charon''
                    | Some v \<Rightarrow> if v = [] then ''Charon'' else v)
      in case generateTTSAudio env (tldr analysis) voice' st3 of
           (r4, st4) \<Rightarrow>
             (case r4 of
                Inl e \<Rightarrow> (Inl e, st4)
              | Inr audioBuffer \<Rightarrow> send_stage env source latest analysis audioBuffer st4))"

definition notify_stages ::
  "env \<Rightarrow> ChangelogSource \<Rightarrow> parsed \<Rightarrow> server \<Rightarrow> (exn + unit) \<times> server" where
  "notify_stages env source latest st0 =
     (let st1 = console_log (''[Monitor] Analyzing changelog for '' @ name source @ ''...'') st0 in
      case analyzeChangelog env (content latest) st1 of
        (r2, st2) \<Rightarrow>
          (case r2 of
             Inl e \<Rightarrow> (Inl e, st2)
           | Inr None \<Rightarrow>
               (Inr (), console_log (''[Monitor] Failed to analyze changelog for '' @ name source) st2)
           | Inr (Some analysis) \<Rightarrow>
               audio_stage env source latest
                 (analysis\<lparr>data_version := name source @ '' '' @ version latest\<rparr>) st2))"

text \<open>\<^verbatim>\<open>${lastKnown}\<close> in a template.\<close>

definition show_null :: "string option \<Rightarrow> string" where
  "show_null v = (case v of None \<Rightarrow> ''null'' | Some s \<Rightarrow> s)"

definition record_stage ::
  "env \<Rightarrow> ChangelogSource \<Rightarrow> parsed \<Rightarrow> server \<Rightarrow> (exn + unit) \<times> server" where
  "record_stage env source latest st2 =
     (let lastKnown = getLastKnownVersion (Some (src_id source)) st2;
          st3 = console_log (''[Monitor] '' @ name source @ '': Latest: '' @ version latest @
                             '', Last known: '' @ show_null lastKnown) st2
      in if lastKnown = Some (version latest)
         then (Inr (), console_log (''[Monitor] '' @ name source @ '': No new version detected'') st3)
         else
           let st4 = console_log (''[Monitor] '' @ name source @ '': New version detected: '' @
                                  version latest) st3;
               st5 = saveVersion (version latest) (src_id source)
                       (current_timestamp env (length (console st4))) st4
           in if get_setting ''emailNotificationsEnabled'' st5 = Some ''true''
              then notify_stages env source latest st5
              else (Inr (), console_log (''[Monitor] Email notifications disabled for '' @
                                         name source @ '', skipping'') st5))"

definition checkSource_try :: "env \<Rightarrow> ChangelogSource \<Rightarrow> server \<Rightarrow> (exn + unit) \<times> server" where
  "checkSource_try env source st0 =
     (let st1 = console_log (''[Monitor] Checking source: '' @ name source @ '' ('' @ url source
                             @ '')'') st0 in
      case fetchChangelog env (url source) st1 of
        (r2, st2) \<Rightarrow>
          (case r2 of
             Inl e \<Rightarrow> (Inl e, st2)
           | Inr markdown \<Rightarrow>
               (case parseLatestVersion markdown of
                  None \<Rightarrow>
                    (Inr (), console_log (''[Monitor] Could not parse changelog for '' @ name source) st2)
                | Some latest \<Rightarrow> record_stage env source latest st2)))"

text \<open>The whole function: the \<^verbatim>\<open>catch\<close> logs whatever the block throws.\<close>

definition checkSourceForNewChangelog ::
  "env \<Rightarrow> ChangelogSource \<Rightarrow> server \<Rightarrow> (exn + unit) \<times> server" where
  "checkSourceForNewChangelog env source st =
     (case checkSource_try env source st of
        (r, st') \<Rightarrow>
          (case r of
             Inl error \<Rightarrow>
               (Inr (), emit (ConsoleError (''[Monitor] Error checking '' @ name source @ '':'') error) st')
           | Inr u \<Rightarrow> (Inr (), st')))"



text \<open>What a run adds to the console, and the requests among it.\<close>

definition added :: "server \<Rightarrow> server \<Rightarrow> event list" where
  "added st st' = drop (length (console st)) (console st')"

fun is_service_call :: "event \<Rightarrow> bool" where
  "is_service_call (AnalyzerCall c) = True"
| "is_service_call (TTSCall t v) = True"
| "is_service_call (MailerCall m) = True"
| "is_service_call e = False"

fun fetched_url :: "event \<Rightarrow> string option" where
  "fetched_url (HttpGet u) = Some u"
| "fetched_url e = None"

fun mail_of :: "event \<Rightarrow> email option" where
  "mail_of (MailerCall m) = Some m"
| "mail_of e = None"

text \<open>
  The mail service reported success to one of the requests among the events, the first of
  which stands at position \<open>k\<close> of the console: the answer to it was \<^verbatim>\<open>response.ok\<close>.
\<close>

fun accepted_in :: "env \<Rightarrow> nat \<Rightarrow> event list \<Rightarrow> bool" where
  "accepted_in env k [] = False"
| "accepted_in env k (e # es) =
     ((case e of MailerCall m \<Rightarrow> resend_send env k m = Inr True | _ \<Rightarrow> False) \<or>
      accepted_in env (Suc k) es)"

definition sent_ok :: "env \<Rightarrow> server \<Rightarrow> server \<Rightarrow> bool" where
  "sent_ok env st st' = accepted_in env (length (console st)) (added st st')"

text \<open>The row of a version and a source carries the mark.\<close>

definition is_notified :: "string \<Rightarrow> string \<Rightarrow> server \<Rightarrow> bool" where
  "is_notified ver sourceId st =
     list_ex (\<lambda>r. row_version r = ver \<and> source_id r = Some sourceId \<and> notified r)
       (changelog_history st)"

section \<open>The server at its start\<close>

text \<open>
  A fresh database: the tables are empty but for the default source that the start seeds,
  and no task is scheduled.
\<close>

definition DEFAULT_CHANGELOG_URL :: string where
  "DEFAULT_CHANGELOG_URL = ''https://raw.githubusercontent.com/anthropics/claude-code/main/CHANGELOG.md''"

definition initial_server :: server where
  "initial_server =
     \<lparr>audio_cache = [],
      settings = [],
      changelog_history = [],
      changelog_sources =
        [\<lparr>src_id = ''src_claude_code'', name = ''Claude Code'', url = DEFAULT_CHANGELOG_URL,
          is_active = True, last_version = None, last_checked_at = None\<rparr>],
      cronJob = None,
      currentCronExpression = None,
      cron_tasks = [],
      cron_created = 0,
      dispatched = 0,
      console = []\<rparr>"

section \<open>Inputs for the examples\<close>

text \<open>
  A changelog, an analysis and two worlds: one where every service answers and accepts,
  and one where the network is down. The states are the fresh server with a second
  source, with the notifications switched on, with a version that the second source
  has recorded, and with both.
\<close>

text \<open>
  A whole number of milliseconds beyond the largest double, and a platform for the
  examples. They meet an interval beyond the exact range only at that number, where the
  double is the infinity and the engine prints \<open>Infinity\<close>: the platform prints that for
  every such interval. Its cron library takes the expressions of five fields made of
  stars, digits, commas and strokes, and no other.
\<close>

definition beyond_doubles :: int where
  "beyond_doubles = 10 ^ 400"

definition example_platform :: platform where
  "example_platform =
     \<lparr>big_minutes = (\<lambda>n. ''Infinity''),
      cron_accepts = (\<lambda>e. list_all (\<lambda>c. c \<in> set ''0123456789*/, '') e \<and>
                          length (filter (\<lambda>c. c = CHR '' '') e) = 4)\<rparr>"

definition example_doc :: string where
  "example_doc =
     ''# Changelog'' @ nl # ''## 2.0.74'' @ nl # ''Fix: bar'' @ nl # ''## 2.0.73'' @ nl # ''...''"

definition example_analysis :: ChangelogEmailRequest where
  "example_analysis =
     \<lparr>data_version = [], tldr = ''A fix.'',
      categories =
        \<lparr>critical_breaking_changes = [], removals = [], major_features = [],
         important_fixes = [''bar''], new_slash_commands = [], terminal_improvements = [],
         api_changes = []\<rparr>,
      action_items = [], sentiment = ''positive''\<rparr>"

definition example_env :: env where
  "example_env =
     \<lparr>GEMINI_API_KEY = Some ''key'', RESEND_API_KEY = Some ''key'',
      NOTIFY_EMAIL = Some ''dev@example.org'',
      http_get = (\<lambda>k u. Inr (200, example_doc)),
      gemini_analyze = (\<lambda>k c. Inr (Some example_analysis)),
      gemini_tts = (\<lambda>k t v. Inr None),
      resend_send = (\<lambda>k m. Inr True),
      current_timestamp = (\<lambda>k. k)\<rparr>"

definition down_env :: env where
  "down_env = example_env\<lparr>http_get := (\<lambda>k u. Inl (Error ''network down''))\<rparr>"

definition default_source :: ChangelogSource where
  "default_source =
     \<lparr>src_id = ''src_claude_code'', name = ''Claude Code'', url = DEFAULT_CHANGELOG_URL,
      is_active = True, last_version = None, last_checked_at = None\<rparr>"

definition other_source :: ChangelogSource where
  "other_source =
     \<lparr>src_id = ''src_2'', name = ''Other'', url = ''https://example.org/CHANGELOG.md'',
      is_active = True, last_version = None, last_checked_at = None\<rparr>"

definition two_sources :: server where
  "two_sources = initial_server\<lparr>changelog_sources := [default_source, other_source]\<rparr>"

definition notifications_on :: server where
  "notifications_on = put_setting ''emailNotificationsEnabled'' ''true'' two_sources"

definition other_recorded :: server where
  "other_recorded = saveVersion ''2.0.74'' ''src_2'' 1 two_sources"

definition other_recorded_on :: server where
  "other_recorded_on = put_setting ''emailNotificationsEnabled'' ''true'' other_recorded"

section \<open>Summaries of a run\<close>

text \<open>An event that is neither a fetch nor a request for mail.\<close>

definition harmless :: "event \<Rightarrow> bool" where
  "harmless e = (fetched_url e = None \<and> mail_of e = None)"

text \<open>
  What the stages after the gate leave behind, for the field \<open>version\<close> of the analysis
  \<open>dv\<close>, the source \<open>sid\<close> and the version \<open>v\<close>: new events on the console, none of
  them a fetch, each mail among them built from an analysis with that field; the settings
  and the sources as before; and the history marked for \<open>v\<close> and \<open>sid\<close> when the service
  accepted a mail among the events, and as before when it accepted none.
\<close>

definition run_ok :: "env \<Rightarrow> string \<Rightarrow> string \<Rightarrow> string \<Rightarrow> server \<Rightarrow> server \<Rightarrow> bool" where
  "run_ok env dv sid v st st' =
     (\<exists>evs. console st' = console st @ evs \<and>
        list_all (\<lambda>e. fetched_url e = None) evs \<and>
        list_all (\<lambda>m. \<exists>a b. m = emailPayload env (a\<lparr>data_version := dv\<rparr>) b)
          (List.map_filter mail_of evs) \<and>
        settings st' = settings st \<and>
        changelog_sources st' = changelog_sources st \<and>
        changelog_history st' =
          (if accepted_in env (length (console st)) evs
           then changelog_history (markVersionNotified v sid st)
           else changelog_history st))"

text \<open>
  What a whole cycle for a source leaves behind: one fetch, of the source; then either no
  call of a service and the history as before, or a version parsed from the fetched
  document that is not the last known one, with the history after the record, marked as
  above when the service accepted a mail and not marked when it accepted none.
\<close>

definition cycle_ok :: "env \<Rightarrow> ChangelogSource \<Rightarrow> server \<Rightarrow> server \<Rightarrow> bool" where
  "cycle_ok env source st st' =
     (\<exists>evs. console st' = console st @ evs \<and>
        List.map_filter fetched_url evs = [url source] \<and>
        settings st' = settings st \<and>
        (list_all (\<lambda>e. \<not> is_service_call e) evs \<and>
         changelog_history st' = changelog_history st \<or>
         (\<exists>latest status markdown t.
            http_get env (Suc (length (console st))) (url source) = Inr (status, markdown) \<and>
            parseLatestVersion markdown = Some latest \<and>
            getLastKnownVersion (Some (src_id source)) st \<noteq> Some (version latest) \<and>
            list_all (\<lambda>m. \<exists>a b. m = emailPayload env
                         (a\<lparr>data_version := name source @ '' '' @ version latest\<rparr>) b)
              (List.map_filter mail_of evs) \<and>
            changelog_history st' =
              (if accepted_in env (length (console st)) evs
               then changelog_history (markVersionNotified (version latest) (src_id source)
                      (saveVersion (version latest) (src_id source) t st))
               else changelog_history (saveVersion (version latest) (src_id source) t st)))))"

text \<open>The mail of the example: the analysis with the name of the source and the version.\<close>

definition example_mail :: email where
  "example_mail =
     emailPayload example_env (example_analysis\<lparr>data_version := ''Claude Code 2.0.74''\<rparr>) None"

section \<open>Properties of the trigger expression\<close>

lemma beyond_doubles_big: "2 ^ 53 \<le> beyond_doubles"
  by (simp add: beyond_doubles_def)

lemma minutes_not_listed:
  assumes "list_all (\<lambda>m. ms \<noteq> m * 60000) cron_table" and "m \<in> set cron_table"
  shows "(of_int ms :: rat) / 60000 \<noteq> of_int m"
proof
  assume "(of_int ms :: rat) / 60000 = of_int m"
  then have "(of_int ms :: rat) = of_int (m * 60000)" by simp
  then have "ms = m * 60000" by (simp only: of_int_eq_iff)
  with assms show False by (auto simp: list_all_iff)
qed

text \<open>
  C4 as the claim states it: 60000 milliseconds give the expression of every hour. They
  give the expression of every minute instead.
\<close>

theorem intervalToCron_60000_counterexample:
  "intervalToCron example_platform (Whole 60000) = Some ''* * * * *'' \<and>
   intervalToCron example_platform (Whole 60000) \<noteq> Some ''0 * * * *''"
  by (simp add: intervalToCron_def cron_of_minutes_def)

text \<open>
  C4, amended: \<open>intervalToCron\<close> maps 60000 milliseconds to the expression of every
  minute, 60 times 60000 to the expression of every hour, 1440 times 60000 to the one of
  midnight of every day, and zero or a negative input to no trigger; a positive whole
  number of milliseconds below \<open>2 ^ 53\<close> that is none of the ten entries of the table
  gives the expression of every \<open>N\<close> minutes with \<open>N\<close> the rounded number of minutes, at
  least 1. From \<open>2 ^ 53\<close> milliseconds on the expression has the same form, with for \<open>N\<close>
  what the engine prints of its rounded doubles.
\<close>

theorem intervalToCron_table:
  "intervalToCron pf (Whole 60000) = Some ''* * * * *'' \<and>
   intervalToCron pf (Whole (60 * 60000)) = Some ''0 * * * *'' \<and>
   intervalToCron pf (Whole (1440 * 60000)) = Some ''0 0 * * *'' \<and>
   (\<forall>x. \<not> positive x \<longrightarrow> intervalToCron pf x = None) \<and>
   (\<forall>ms. 0 < ms \<and> ms < 2 ^ 53 \<and> list_all (\<lambda>m. ms \<noteq> m * 60000) cron_table \<longrightarrow>
      intervalToCron pf (Whole ms) =
        Some (''*/'' @ show_nat (nat (max 1 (js_round (of_int ms / 60000)))) @ '' * * * *'')) \<and>
   (\<forall>n. 2 ^ 53 \<le> n \<longrightarrow>
      intervalToCron pf (to_number n) = Some (''*/'' @ big_minutes pf n @ '' * * * *''))"
proof (intro conjI allI impI)
  show "intervalToCron pf (Whole 60000) = Some ''* * * * *''"
    by (simp add: intervalToCron_def cron_of_minutes_def)
  show "intervalToCron pf (Whole (60 * 60000)) = Some ''0 * * * *''"
    by (simp add: intervalToCron_def cron_of_minutes_def)
  show "intervalToCron pf (Whole (1440 * 60000)) = Some ''0 0 * * *''"
    by (simp add: intervalToCron_def cron_of_minutes_def)
next
  fix x :: number
  assume np: "\<not> positive x"
  show "intervalToCron pf x = None"
  proof (cases x)
    case (Whole ms)
    with np have "ms \<le> 0" by (simp add: positive_def)
    then have "(of_int ms :: rat) / 60000 \<le> 0" by (simp add: divide_le_0_iff)
    with \<open>ms \<le> 0\<close> Whole show ?thesis
      by (simp add: intervalToCron_def cron_of_minutes_def cron_beyond_def)
  next
    case (Rounded n)
    with np show ?thesis by (simp add: positive_def intervalToCron_def cron_beyond_def)
  qed
next
  fix ms :: int
  assume h: "0 < ms \<and> ms < 2 ^ 53 \<and> list_all (\<lambda>m. ms \<noteq> m * 60000) cron_table"
  then have pos: "\<not> (of_int ms :: rat) / 60000 \<le> 0" by (simp add: divide_le_0_iff)
  from h have small: "\<bar>ms\<bar> < 2 ^ 53" by simp
  have ne: "(of_int ms :: rat) / 60000 \<noteq> of_int m" if "m \<in> set cron_table" for m
    using minutes_not_listed [of ms m] h that by blast
  have "(of_int ms :: rat) / 60000 \<noteq> 1" "(of_int ms :: rat) / 60000 \<noteq> 5"
    "(of_int ms :: rat) / 60000 \<noteq> 15" "(of_int ms :: rat) / 60000 \<noteq> 30"
    "(of_int ms :: rat) / 60000 \<noteq> 60" "(of_int ms :: rat) / 60000 \<noteq> 360"
    "(of_int ms :: rat) / 60000 \<noteq> 720" "(of_int ms :: rat) / 60000 \<noteq> 1440"
    "(of_int ms :: rat) / 60000 \<noteq> 10080" "(of_int ms :: rat) / 60000 \<noteq> 20160"
    using ne [of 1] ne [of 5] ne [of 15] ne [of 30] ne [of 60] ne [of 360] ne [of 720]
      ne [of 1440] ne [of 10080] ne [of 20160]
    by (simp_all add: cron_table_def)
  with pos have "cron_of_minutes (of_int ms / 60000) =
        Some (''*/'' @ show_nat (nat (max 1 (js_round (of_int ms / 60000)))) @ '' * * * *'')"
    unfolding cron_of_minutes_def by (simp only: if_False)
  with small show "intervalToCron pf (Whole ms) =
        Some (''*/'' @ show_nat (nat (max 1 (js_round (of_int ms / 60000)))) @ '' * * * *'')"
    by (simp add: intervalToCron_def)
next
  fix n :: int
  assume "2 ^ 53 \<le> n"
  then show "intervalToCron pf (to_number n) = Some (''*/'' @ big_minutes pf n @ '' * * * *'')"
    by (simp add: to_number_def intervalToCron_def cron_beyond_def)
qed

theorem intervalToCron_table_witness:
  "\<not> positive (Whole (- 5)) \<and> intervalToCron example_platform (Whole (- 5)) = None \<and>
   (0 :: int) < 420000 \<and> (420000 :: int) < 2 ^ 53 \<and>
   list_all (\<lambda>m. (420000 :: int) \<noteq> m * 60000) cron_table \<and>
   intervalToCron example_platform (Whole 420000) = Some ''*/7 * * * *'' \<and>
   (0 :: int) < 10000 \<and> (10000 :: int) < 2 ^ 53 \<and>
   list_all (\<lambda>m. (10000 :: int) \<noteq> m * 60000) cron_table \<and>
   intervalToCron example_platform (Whole 10000) = Some ''*/1 * * * *'' \<and>
   2 ^ 53 \<le> beyond_doubles \<and>
   intervalToCron example_platform (to_number beyond_doubles) = Some ''*/Infinity * * * *''"
proof -
  have a: "intervalToCron example_platform x = None" if "\<not> positive x" for x
    using intervalToCron_table [of example_platform] that by blast
  have b: "intervalToCron example_platform (Whole ms) =
      Some (''*/'' @ show_nat (nat (max 1 (js_round (of_int ms / 60000)))) @ '' * * * *'')"
    if "0 < ms" "ms < 2 ^ 53" "list_all (\<lambda>m. ms \<noteq> m * 60000) cron_table" for ms
    using intervalToCron_table [of example_platform] that by blast
  have c: "intervalToCron example_platform (to_number n) =
      Some (''*/'' @ big_minutes example_platform n @ '' * * * *'')" if "2 ^ 53 \<le> n" for n
    using intervalToCron_table [of example_platform] that by blast
  have t1: "list_all (\<lambda>m. (420000 :: int) \<noteq> m * 60000) cron_table"
    and t2: "list_all (\<lambda>m. (10000 :: int) \<noteq> m * 60000) cron_table"
    by (simp_all add: cron_table_def)
  have s1: "show_nat (nat (max 1 (js_round (of_int 420000 / 60000)))) = ''7''"
    and s2: "show_nat (nat (max 1 (js_round (of_int 10000 / 60000)))) = ''1''"
    by code_simp+
  have p1: "(0 :: int) < 420000" and p2: "(0 :: int) < 10000" by simp_all
  have q1: "(420000 :: int) < 2 ^ 53" and q2: "(10000 :: int) < 2 ^ 53" by simp_all
  have big: "2 ^ 53 \<le> beyond_doubles" by (rule beyond_doubles_big)
  have n: "\<not> positive (Whole (- 5))" by (simp add: positive_def)
  have "intervalToCron example_platform (Whole 420000) = Some ''*/7 * * * *''"
    using b [OF p1 q1 t1, unfolded s1] by simp
  moreover have "intervalToCron example_platform (Whole 10000) = Some ''*/1 * * * *''"
    using b [OF p2 q2 t2, unfolded s2] by simp
  moreover have "intervalToCron example_platform (to_number beyond_doubles) =
      Some ''*/Infinity * * * *''"
    using c [OF big] by (simp add: example_platform_def)
  ultimately show ?thesis using a [OF n] n t1 t2 big by simp
qed

section \<open>Properties of the version parser\<close>

lemma match_version_nonempty: "match_version s = Some v \<Longrightarrow> v \<noteq> []"
  by (auto simp: match_version_def Let_def split: if_splits list.splits)

lemma versionMatch_nonempty: "versionMatch l = Some v \<Longrightarrow> v \<noteq> []"
  by (auto simp: versionMatch_def Let_def split: list.splits if_splits option.splits
      dest: match_version_nonempty)

lemma parse_loop_capturing:
  "parse_loop ls ver cont True = (ver, cont @ takeWhile no_header ls)"
  by (induction ls arbitrary: cont) (auto simp: no_header_def split: option.splits)

lemma parse_loop_no_header:
  "list_all no_header ls \<Longrightarrow> parse_loop ls ver cont False = (ver, cont)"
  by (induction ls) (auto simp: no_header_def)

lemma parse_loop_first_header:
  "list_all no_header pre \<Longrightarrow> versionMatch h = Some v \<Longrightarrow>
   parse_loop (pre @ h # rest) ver cont False = (v, cont @ h # takeWhile no_header rest)"
  by (induction pre) (auto simp: no_header_def parse_loop_capturing)

text \<open>
  C2: when no line of the document is a version header, \<open>parseLatestVersion\<close> returns no
  result. Otherwise, with \<open>h\<close> the first header line and \<open>v\<close> its token, it returns the
  version \<open>v\<close> and as content the lines from \<open>h\<close> on, up to and without the next header
  line or through the end of the document, joined by line feeds.
\<close>

theorem parseLatestVersion_first_block:
  "(list_all no_header (split_nl markdown) \<longrightarrow> parseLatestVersion markdown = None) \<and>
   (\<forall>pre h v rest.
      split_nl markdown = pre @ h # rest \<and> list_all no_header pre \<and> versionMatch h = Some v \<longrightarrow>
      parseLatestVersion markdown =
        Some \<lparr>version = v, content = join_nl (h # takeWhile no_header rest)\<rparr>)"
proof (intro conjI impI allI)
  assume "list_all no_header (split_nl markdown)"
  then show "parseLatestVersion markdown = None"
    by (simp add: parseLatestVersion_def parse_loop_no_header)
next
  fix pre h v rest
  assume a: "split_nl markdown = pre @ h # rest \<and> list_all no_header pre \<and> versionMatch h = Some v"
  then have "parse_loop (split_nl markdown) [] [] False = (v, h # takeWhile no_header rest)"
    using parse_loop_first_header [of pre h v rest "[]" "[]"] by simp
  moreover from a have "v \<noteq> []" by (blast dest: versionMatch_nonempty)
  ultimately show "parseLatestVersion markdown =
        Some \<lparr>version = v, content = join_nl (h # takeWhile no_header rest)\<rparr>"
    by (simp add: parseLatestVersion_def)
qed

theorem parseLatestVersion_first_block_witness:
  "list_all no_header (split_nl (''no header'' @ nl # ''here'')) \<and>
   parseLatestVersion (''no header'' @ nl # ''here'') = None \<and>
   split_nl (''# Changelog'' @ nl # ''## 2.0.74'' @ nl # ''Fix: bar'' @ nl # ''## 2.0.73'' @ nl # ''...'')
     = [''# Changelog''] @ ''## 2.0.74'' # [''Fix: bar'', ''## 2.0.73'', ''...''] \<and>
   list_all no_header [''# Changelog''] \<and> versionMatch ''## 2.0.74'' = Some ''2.0.74'' \<and>
   parseLatestVersion
     (''# Changelog'' @ nl # ''## 2.0.74'' @ nl # ''Fix: bar'' @ nl # ''## 2.0.73'' @ nl # ''...'')
     = Some \<lparr>version = ''2.0.74'', content = ''## 2.0.74'' @ nl # ''Fix: bar''\<rparr>"
proof -
  define doc where
    "doc = ''# Changelog'' @ nl # ''## 2.0.74'' @ nl # ''Fix: bar'' @ nl # ''## 2.0.73'' @ nl # ''...''"
  have a: "list_all no_header (split_nl (''no header'' @ nl # ''here''))" by code_simp
  have b: "split_nl doc = [''# Changelog''] @ ''## 2.0.74'' # [''Fix: bar'', ''## 2.0.73'', ''...'']"
    unfolding doc_def by code_simp
  have c: "list_all no_header [''# Changelog'']" by code_simp
  have d: "versionMatch ''## 2.0.74'' = Some ''2.0.74''" by code_simp
  have e: "takeWhile no_header [''Fix: bar'', ''## 2.0.73'', ''...''] = [''Fix: bar'']" by code_simp
  from parseLatestVersion_first_block [of "''no header'' @ nl # ''here''"] a
  have f: "parseLatestVersion (''no header'' @ nl # ''here'') = None" by blast
  from parseLatestVersion_first_block [of doc] b c d
  have "parseLatestVersion doc = Some \<lparr>version = ''2.0.74'',
      content = join_nl (''## 2.0.74'' # takeWhile no_header [''Fix: bar'', ''## 2.0.73'', ''...''])\<rparr>"
    by blast
  then have g: "parseLatestVersion doc =
      Some \<lparr>version = ''2.0.74'', content = ''## 2.0.74'' @ nl # ''Fix: bar''\<rparr>"
    by (subst (asm) e) simp
  from a f b c d g show ?thesis unfolding doc_def by blast
qed

section \<open>Properties of the audio codec\<close>

lemma replicate_44: "replicate 44 (0::byte) =
  [0,0,0,0, 0,0,0,0, 0,0,0,0, 0,0,0,0, 0,0,0,0, 0,0,0,0, 0,0,0,0, 0,0,0,0, 0,0,0,0, 0,0,0,0, 0,0,0,0]"
  by (simp add: numeral_eq_Suc)

lemma alloc_44: "alloc (44 + n) = replicate 44 0 @ replicate n 0"
  by (simp add: alloc_def replicate_add)

lemma length_put [simp]: "length (put bs off buf) = length buf"
  by (simp add: put_def)

lemma put_tail: "length h = off \<Longrightarrow> length t = length bs \<Longrightarrow> put bs off (h @ t) = h @ bs"
  by (simp add: put_def)

lemma length_wav_header: "length (wav_header n) = 44"
  by (simp add: wav_header_def bytes_of_def le16_def le32_def)

lemma writes_header:
  assumes "36 + n < 2 ^ 32"
  shows "writes
           [write_str ''RIFF'' 0,
            writeUInt32LE (36 + n) 4,
            write_str ''WAVE'' 8,
            write_str ''fmt '' 12,
            writeUInt32LE 16 16,
            writeUInt16LE 1 20,
            writeUInt16LE 1 22,
            writeUInt32LE 24000 24,
            writeUInt32LE 48000 28,
            writeUInt16LE 2 32,
            writeUInt16LE 16 34,
            write_str ''data'' 36,
            writeUInt32LE n 40] (replicate 44 0 @ replicate n 0) = Inr (wav_header n @ replicate n 0)"
proof -
  from assms have n: "\<not> 4294967296 \<le> n" "\<not> 4294967296 \<le> 36 + n" by simp_all
  show ?thesis
    unfolding replicate_44
    apply (simp add: write_str_def writeUInt32LE_def writeUInt16LE_def n)
    apply (simp add: put_def bytes_of_def le16_def le32_def wav_header_def)
    done
qed

lemma pcmToWav_value:
  assumes "36 + length pcm < 2 ^ 32"
  shows "pcmToWav pcm = Inr (wav_header (length pcm) @ pcm)"
proof -
  have a: "(24000::nat) * 1 * (16 div 8) = 48000" "(1::nat) * (16 div 8) = 2" by simp_all
  have "pcmToWav pcm =
      (case writes
           [write_str ''RIFF'' 0,
            writeUInt32LE (36 + length pcm) 4,
            write_str ''WAVE'' 8,
            write_str ''fmt '' 12,
            writeUInt32LE 16 16,
            writeUInt16LE 1 20,
            writeUInt16LE 1 22,
            writeUInt32LE 24000 24,
            writeUInt32LE 48000 28,
            writeUInt16LE 2 32,
            writeUInt16LE 16 34,
            write_str ''data'' 36,
            writeUInt32LE (length pcm) 40] (replicate 44 0 @ replicate (length pcm) 0) of
         Inl e \<Rightarrow> Inl e
       | Inr buffer' \<Rightarrow> Inr (put pcm 44 buffer'))"
    by (simp only: pcmToWav_def Let_def a alloc_44)
  also have "\<dots> = Inr (put pcm 44 (wav_header (length pcm) @ replicate (length pcm) 0))"
    by (simp only: writes_header [OF assms] sum.case)
  also have "\<dots> = Inr (wav_header (length pcm) @ pcm)"
    by (simp add: put_tail length_wav_header)
  finally show ?thesis .
qed

lemma unat_byte: "unat (of_nat x :: byte) = x mod 256"
  by (simp add: unat_of_nat)

lemma le_value_le32:
  assumes "v < 2 ^ 32"
  shows "le_value (le32 v) = v"
proof -
  define a where "a = v div 256"
  define b where "b = a div 256"
  define c where "c = b div 256"
  have d: "v div 65536 = b" "v div 16777216 = c"
    by (simp_all add: a_def b_def c_def div_mult2_eq)
  from assms have "c < 256" by (simp add: d [symmetric])
  then have c: "c mod 256 = c" by simp
  have "le_value (le32 v) = v mod 256 + 256 * (a mod 256 + 256 * (b mod 256 + 256 * c))"
    by (simp add: le32_def unat_byte d c a_def [symmetric])
  also have "\<dots> = v" by (simp only: a_def b_def c_def mod_mult_div_eq)
  finally show ?thesis .
qed

lemma le_value_le16:
  assumes "v < 2 ^ 16"
  shows "le_value (le16 v) = v"
proof -
  define a where "a = v div 256"
  from assms have "a < 256" by (simp add: a_def)
  then have a: "a mod 256 = a" by simp
  have "le_value (le16 v) = v mod 256 + 256 * a"
    by (simp add: le16_def unat_byte a a_def [symmetric])
  also have "\<dots> = v" by (simp only: a_def mod_mult_div_eq)
  finally show ?thesis .
qed

lemma wav_fields:
  "slice 0 4 (wav_header n @ pcm) = bytes_of ''RIFF''"
  "slice 4 8 (wav_header n @ pcm) = le32 (36 + n)"
  "slice 8 12 (wav_header n @ pcm) = bytes_of ''WAVE''"
  "slice 12 16 (wav_header n @ pcm) = bytes_of ''fmt ''"
  "slice 16 20 (wav_header n @ pcm) = le32 16"
  "slice 20 22 (wav_header n @ pcm) = le16 1"
  "slice 22 24 (wav_header n @ pcm) = le16 1"
  "slice 24 28 (wav_header n @ pcm) = le32 24000"
  "slice 28 32 (wav_header n @ pcm) = le32 48000"
  "slice 32 34 (wav_header n @ pcm) = le16 2"
  "slice 34 36 (wav_header n @ pcm) = le16 16"
  "slice 36 40 (wav_header n @ pcm) = bytes_of ''data''"
  "slice 40 44 (wav_header n @ pcm) = le32 n"
  by (simp_all add: slice_def wav_header_def bytes_of_def le16_def le32_def)

text \<open>
  C7: for every PCM input of \<open>N\<close> bytes that the program can hold, which is
  \<open>44 + N < 2 ^ 31\<close>, \<open>pcmToWav\<close> returns a buffer of exactly \<open>44 + N\<close> bytes in which
  bytes 0 to 4 are \<open>RIFF\<close>, bytes 4 to 8 encode \<open>36 + N\<close> little-endian, bytes 8 to 12
  are \<open>WAVE\<close>, the subchunk \<open>fmt\<close> of 16 bytes declares the format code 1, 1 channel,
  the sample rate 24000, the byte rate 48000, the block align 2 and 16 bits per sample,
  the size field of the data chunk at bytes 40 to 44 equals \<open>N\<close>, and the last \<open>N\<close> bytes
  are the input.
\<close>

theorem pcmToWav_container:
  assumes "44 + length pcm < 2 ^ 31"
  shows "\<exists>wav. pcmToWav pcm = Inr wav \<and> length wav = 44 + length pcm \<and>
    slice 0 4 wav = bytes_of ''RIFF'' \<and>
    le_value (slice 4 8 wav) = 36 + length pcm \<and>
    slice 8 12 wav = bytes_of ''WAVE'' \<and>
    slice 12 16 wav = bytes_of ''fmt '' \<and>
    le_value (slice 16 20 wav) = 16 \<and>
    le_value (slice 20 22 wav) = 1 \<and>
    le_value (slice 22 24 wav) = 1 \<and>
    le_value (slice 24 28 wav) = 24000 \<and>
    le_value (slice 28 32 wav) = 48000 \<and>
    le_value (slice 32 34 wav) = 2 \<and>
    le_value (slice 34 36 wav) = 16 \<and>
    slice 36 40 wav = bytes_of ''data'' \<and>
    le_value (slice 40 44 wav) = length pcm \<and>
    drop 44 wav = pcm"
proof -
  from assms have n: "length pcm < 2 ^ 32" and c: "36 + length pcm < 2 ^ 32" by simp_all
  have "length (wav_header (length pcm) @ pcm) = 44 + length pcm"
    by (simp add: length_wav_header)
  moreover have "drop 44 (wav_header (length pcm) @ pcm) = pcm"
    by (simp add: length_wav_header)
  moreover have "le_value (le32 (36 + length pcm)) = 36 + length pcm"
    using c by (rule le_value_le32)
  moreover have "le_value (le32 (length pcm)) = length pcm"
    using n by (rule le_value_le32)
  moreover have "le_value (le32 16) = 16" "le_value (le32 24000) = 24000"
    "le_value (le32 48000) = 48000"
    by (simp_all add: le_value_le32)
  moreover have "le_value (le16 1) = 1" "le_value (le16 2) = 2" "le_value (le16 16) = 16"
    by (simp_all add: le_value_le16)
  ultimately show ?thesis
    by (simp only: pcmToWav_value [OF c] wav_fields sum.inject simp_thms ex_simps)
qed

theorem pcmToWav_container_witness:
  "44 + length [1, 2, 3 :: byte] < (2 :: nat) ^ 31 \<and>
   (\<exists>wav. pcmToWav [1, 2, 3] = Inr wav \<and> length wav = 47 \<and>
      slice 0 4 wav = bytes_of ''RIFF'' \<and> le_value (slice 4 8 wav) = 39 \<and>
      slice 8 12 wav = bytes_of ''WAVE'' \<and> le_value (slice 24 28 wav) = 24000 \<and>
      le_value (slice 40 44 wav) = 3 \<and> drop 44 wav = [1, 2, 3])"
proof -
  have h: "44 + length [1, 2, 3 :: byte] < (2 :: nat) ^ 31" by simp
  from pcmToWav_container [OF h] obtain wav where
    "pcmToWav [1, 2, 3] = Inr wav" "length wav = 44 + length [1, 2, 3 :: byte]"
    "slice 0 4 wav = bytes_of ''RIFF''" "le_value (slice 4 8 wav) = 36 + length [1, 2, 3 :: byte]"
    "slice 8 12 wav = bytes_of ''WAVE''" "le_value (slice 24 28 wav) = 24000"
    "le_value (slice 40 44 wav) = length [1, 2, 3 :: byte]" "drop 44 wav = [1, 2, 3]"
    by blast
  with h show ?thesis by auto
qed


section \<open>Properties of the stores\<close>

lemma saveVersion_history_present:
  "ver \<in> set (map row_version (changelog_history (saveVersion ver s t st)))"
  by (simp add: saveVersion_def)

text \<open>Recording a pair that the history has changes no row.\<close>

lemma saveVersion_again:
  "has_record v s st \<Longrightarrow> changelog_history (saveVersion v s t st) = changelog_history st"
  by (auto simp: has_record_def saveVersion_def list_ex_iff)

text \<open>
  C1, at the inputs where the code departs from it: once a version is recorded for one
  source, recording the same version for another source leaves the history as it was,
  with no row for the second pair. (Recording a pair again changes no row either, which is
  the part of the claim that holds.)
\<close>

theorem saveVersion_second_source_ignored:
  assumes "s1 \<noteq> s2" and "\<not> has_record v s2 st"
  shows "changelog_history (saveVersion v s2 t2 (saveVersion v s1 t1 st)) =
           changelog_history (saveVersion v s1 t1 st) \<and>
         \<not> has_record v s2 (saveVersion v s2 t2 (saveVersion v s1 t1 st))"
proof -
  have a: "changelog_history (saveVersion v s2 t2 (saveVersion v s1 t1 st)) =
      changelog_history (saveVersion v s1 t1 st)"
    using saveVersion_history_present [of v s1 t1 st]
    by (simp add: saveVersion_def [of v s2])
  have "\<not> has_record v s2 (saveVersion v s1 t1 st)"
    using assms by (auto simp: has_record_def saveVersion_def list_ex_iff)
  with a show ?thesis by (simp add: has_record_def)
qed

theorem saveVersion_second_source_ignored_witness:
  "''src_claude_code'' \<noteq> ''src_2'' \<and> \<not> has_record ''1.0.0'' ''src_2'' initial_server \<and>
   changelog_history
     (saveVersion ''1.0.0'' ''src_2'' 2 (saveVersion ''1.0.0'' ''src_claude_code'' 1 initial_server)) =
     [\<lparr>row_version = ''1.0.0'', detected_at = 1, notified = False,
       source_id = Some ''src_claude_code''\<rparr>] \<and>
   \<not> has_record ''1.0.0'' ''src_2''
     (saveVersion ''1.0.0'' ''src_2'' 2 (saveVersion ''1.0.0'' ''src_claude_code'' 1 initial_server))"
proof -
  have a: "''src_claude_code'' \<noteq> ''src_2''" by simp
  have b: "\<not> has_record ''1.0.0'' ''src_2'' initial_server"
    by (simp add: has_record_def initial_server_def)
  have c: "changelog_history (saveVersion ''1.0.0'' ''src_claude_code'' 1 initial_server) =
     [\<lparr>row_version = ''1.0.0'', detected_at = 1, notified = False,
       source_id = Some ''src_claude_code''\<rparr>]"
    by (simp add: saveVersion_def initial_server_def)
  from saveVersion_second_source_ignored [OF a b, of 2 1] a b c show ?thesis by simp
qed

lemma digit_of_digit_char: "d < 10 \<Longrightarrow> digit_of 10 (digit_char d) = Some d"
proof -
  have "list_all (\<lambda>d. digit_of 10 (digit_char d) = Some d) [0 ..< 10]" by code_simp
  then show "d < 10 \<Longrightarrow> digit_of 10 (digit_char d) = Some d"
    by (simp add: list_all_iff)
qed

lemma digits_value_show_nat: "digits_value 10 (show_nat n) = n"
proof (induction n rule: show_nat.induct)
  case (1 n)
  show ?case
  proof (cases "n < 10")
    case True
    then show ?thesis
      by (subst show_nat.simps) (simp add: digits_value_def digit_of_digit_char)
  next
    case False
    with 1 have "digits_value 10 (show_nat (n div 10)) = n div 10" by simp
    with False show ?thesis
      by (subst show_nat.simps) (simp add: digits_value_def digit_of_digit_char)
  qed
qed

lemma show_nat_inj: "show_nat a = show_nat b \<Longrightarrow> a = b"
  by (metis digits_value_show_nat)

lemma find_first_filtered:
  "find P xs = (case filter P xs of [] \<Rightarrow> None | x # ys \<Rightarrow> Some x)"
  by (induction xs) auto

lemma post_audio_appends:
  assumes "h \<noteq> []" "v \<noteq> []" "a \<noteq> []"
  shows "audio_entries h v (snd (post_audio b64 h v a t n st)) =
     filter (\<lambda>r. audio_id r \<noteq> h @ ''_'' @ v @ ''_'' @ show_nat t) (audio_entries h v st) @
     [\<lparr>audio_id = h @ ''_'' @ v @ ''_'' @ show_nat t, text_hash = h, voice = v,
       audio_data = b64 a, created_at = n\<rparr>]"
  using assms by (auto simp: post_audio_def audio_entries_def Let_def intro: filter_cong)

text \<open>
  C9, at the inputs where the code departs from it: two saves for the same text hash and
  voice at different times leave two entries for the key, and the lookup returns the
  payload of the first save.
\<close>

theorem post_audio_keeps_first:
  assumes "h \<noteq> []" "v \<noteq> []" "a1 \<noteq> []" "a2 \<noteq> []" and "t1 \<noteq> t2"
    and "audio_entries h v st = []"
  shows "length (audio_entries h v
           (snd (post_audio b64 h v a2 t2 n2 (snd (post_audio b64 h v a1 t1 n1 st))))) = 2 \<and>
         get_audio h v (snd (post_audio b64 h v a2 t2 n2 (snd (post_audio b64 h v a1 t1 n1 st))))
           = Some (b64 a1)"
proof -
  let ?st1 = "snd (post_audio b64 h v a1 t1 n1 st)"
  let ?st2 = "snd (post_audio b64 h v a2 t2 n2 ?st1)"
  let ?row1 = "\<lparr>audio_id = h @ ''_'' @ v @ ''_'' @ show_nat t1, text_hash = h, voice = v,
       audio_data = b64 a1, created_at = n1\<rparr>"
  let ?row2 = "\<lparr>audio_id = h @ ''_'' @ v @ ''_'' @ show_nat t2, text_hash = h, voice = v,
       audio_data = b64 a2, created_at = n2\<rparr>"
  from assms(5) have ne: "show_nat t1 \<noteq> show_nat t2" by (blast dest: show_nat_inj)
  have e1: "audio_entries h v ?st1 = [?row1]"
    using assms by (simp add: post_audio_appends)
  have e2: "audio_entries h v ?st2 = [?row1, ?row2]"
    using assms ne by (simp add: post_audio_appends [of h v a2] e1)
  have "get_audio h v ?st2 =
      map_option audio_data (case audio_entries h v ?st2 of [] \<Rightarrow> None | x # ys \<Rightarrow> Some x)"
    unfolding get_audio_def audio_entries_def by (simp only: find_first_filtered)
  with e2 show ?thesis by simp
qed

theorem post_audio_keeps_first_witness:
  "''abc'' \<noteq> [] \<and> ''Charon'' \<noteq> [] \<and> ''QQ=='' \<noteq> [] \<and> ''Qg=='' \<noteq> [] \<and> (1000 :: nat) \<noteq> 2000 \<and>
   audio_entries ''abc'' ''Charon'' initial_server = [] \<and>
   length (audio_entries ''abc'' ''Charon''
     (snd (post_audio bytes_of ''abc'' ''Charon'' ''Qg=='' 2000 2
       (snd (post_audio bytes_of ''abc'' ''Charon'' ''QQ=='' 1000 1 initial_server))))) = 2 \<and>
   get_audio ''abc'' ''Charon''
     (snd (post_audio bytes_of ''abc'' ''Charon'' ''Qg=='' 2000 2
       (snd (post_audio bytes_of ''abc'' ''Charon'' ''QQ=='' 1000 1 initial_server))))
     = Some (bytes_of ''QQ=='')"
proof -
  have a: "''abc'' \<noteq> []" "''Charon'' \<noteq> []" "''QQ=='' \<noteq> []" "''Qg=='' \<noteq> []"
    "(1000 :: nat) \<noteq> 2000" by simp_all
  have b: "audio_entries ''abc'' ''Charon'' initial_server = []"
    by (simp add: audio_entries_def initial_server_def)
  from post_audio_keeps_first [OF a b, of bytes_of 2 1] a b show ?thesis by blast
qed

section \<open>Properties of the scheduler\<close>


lemma stopMonitoring_fields:
  "settings (stopMonitoring st) = settings st"
  "cronJob (stopMonitoring st) = None"
  "currentCronExpression (stopMonitoring st) =
     (case cronJob st of None \<Rightarrow> currentCronExpression st | Some t \<Rightarrow> None)"
  "cron_tasks (stopMonitoring st) =
     (case cronJob st of None \<Rightarrow> cron_tasks st | Some t \<Rightarrow> removeAll t (cron_tasks st))"
  "cron_created (stopMonitoring st) = cron_created st"
  by (simp_all add: stopMonitoring_def console_log_def emit_def split: option.splits)

lemma stopMonitoring_ok:
  assumes "scheduler_ok st"
  shows "cron_tasks (stopMonitoring st) = []"
  using assms by (auto simp: scheduler_ok_def stopMonitoring_fields split: option.splits)

lemma startMonitoring_fields:
  assumes "intervalToCron pf ms = Some e" and "cron_accepts pf e"
  shows "fst (startMonitoring pf ms st) = Inr ()"
    "settings (snd (startMonitoring pf ms st)) = settings st"
    "cronJob (snd (startMonitoring pf ms st)) = Some (cron_created st)"
    "currentCronExpression (snd (startMonitoring pf ms st)) = Some e"
    "cron_tasks (snd (startMonitoring pf ms st)) = cron_tasks (stopMonitoring st) @ [cron_created st]"
    "cron_created (snd (startMonitoring pf ms st)) = cron_created st + 1"
  using assms
  by (simp_all add: startMonitoring_def Let_def console_log_def emit_def stopMonitoring_fields)

text \<open>
  When the cron library refuses the expression, \<open>startMonitoring\<close> throws after it has
  stopped the task of before, stored the expression and started a check: no task is
  scheduled.
\<close>

lemma startMonitoring_refused:
  assumes "intervalToCron pf ms = Some e" and "\<not> cron_accepts pf e"
  shows "fst (startMonitoring pf ms st) = Inl (Error ''cron.schedule'')"
    "settings (snd (startMonitoring pf ms st)) = settings st"
    "cronJob (snd (startMonitoring pf ms st)) = None"
    "currentCronExpression (snd (startMonitoring pf ms st)) = Some e"
    "cron_tasks (snd (startMonitoring pf ms st)) = cron_tasks (stopMonitoring st)"
    "dispatched (snd (startMonitoring pf ms st)) = dispatched (stopMonitoring st) + 1"
  using assms
  by (simp_all add: startMonitoring_def Let_def console_log_def emit_def stopMonitoring_fields)

lemma monitoring_settings:
  "settings a = settings b \<Longrightarrow> monitoring_enabled a = monitoring_enabled b"
  "settings a = settings b \<Longrightarrow> monitoring_interval a = monitoring_interval b"
  by (simp_all add: monitoring_enabled_def monitoring_interval_def get_setting_def)

text \<open>
  The condition on the scheduler holds at the start and after every request whose
  expression the cron library takes.
\<close>

lemma scheduler_ok_initial: "scheduler_ok initial_server"
  by (simp add: scheduler_ok_def initial_server_def)

lemma scheduler_ok_stop: "scheduler_ok st \<Longrightarrow> scheduler_ok (stopMonitoring st)"
  by (auto simp: scheduler_ok_def stopMonitoring_def console_log_def emit_def
      split: option.splits)

lemma scheduler_ok_start:
  assumes "scheduler_ok st"
    and "case intervalToCron pf ms of None \<Rightarrow> True | Some e \<Rightarrow> cron_accepts pf e"
  shows "scheduler_ok (snd (startMonitoring pf ms st))"
proof (cases "intervalToCron pf ms")
  case None
  from assms(1) have "scheduler_ok (stopMonitoring st)" by (rule scheduler_ok_stop)
  with None show ?thesis
    by (auto simp: startMonitoring_def Let_def console_log_def emit_def scheduler_ok_def
        split: option.splits)
next
  case (Some e)
  with assms(2) have acc: "cron_accepts pf e" by simp
  from assms(1) have "cron_tasks (stopMonitoring st) = []" by (rule stopMonitoring_ok)
  then show ?thesis
    by (simp add: scheduler_ok_def startMonitoring_fields [OF Some acc])
qed

lemma scheduler_ok_post_setting:
  assumes "scheduler_ok st" and "schedule_accepted pf (put_setting k v st)"
  shows "scheduler_ok (snd (post_setting pf k v st))"
proof -
  define st1 where "st1 = put_setting k v st"
  from assms(1) have ok1: "scheduler_ok st1"
    by (auto simp: st1_def put_setting_def scheduler_ok_def split: option.splits)
  show ?thesis
  proof (cases "monitoring_enabled st1 \<and> positive (monitoring_interval st1)")
    case True
    with assms(2) have "case intervalToCron pf (monitoring_interval st1) of
        None \<Rightarrow> True | Some e \<Rightarrow> cron_accepts pf e"
      by (simp add: schedule_accepted_def st1_def)
    with ok1 have "scheduler_ok (snd (startMonitoring pf (monitoring_interval st1) st1))"
      by (rule scheduler_ok_start)
    with True ok1 show ?thesis
      unfolding post_setting_def Let_def st1_def [symmetric] by simp
  next
    case False
    with ok1 show ?thesis
      unfolding post_setting_def Let_def st1_def [symmetric]
      by (auto simp: scheduler_ok_stop)
  qed
qed


text \<open>
  When the cron library refuses the expression of the stored interval, the handler throws
  with the settings written: no task is scheduled although the flag is set and the
  interval is above 0, and the expression of the interval is stored.
\<close>

lemma post_setting_refused:
  assumes "scheduler_ok st"
    and "k = ''emailNotificationsEnabled'' \<or> k = ''notificationCheckInterval''"
    and "\<not> schedule_accepted pf (put_setting k v st)"
  shows "fst (post_setting pf k v st) = Inl (Error ''cron.schedule'')"
    "settings (snd (post_setting pf k v st)) = settings (put_setting k v st)"
    "monitoring_enabled (snd (post_setting pf k v st))"
    "positive (monitoring_interval (snd (post_setting pf k v st)))"
    "cronJob (snd (post_setting pf k v st)) = None"
    "cron_tasks (snd (post_setting pf k v st)) = []"
    "currentCronExpression (snd (post_setting pf k v st)) =
       intervalToCron pf (monitoring_interval (snd (post_setting pf k v st)))"
proof -
  define st1 where "st1 = put_setting k v st"
  have ok1: "scheduler_ok st1"
    using assms(1) by (auto simp: st1_def put_setting_def scheduler_ok_def split: option.splits)
  from ok1 have empty: "cron_tasks (stopMonitoring st1) = []" by (rule stopMonitoring_ok)
  from assms(3) have on: "monitoring_enabled st1 \<and> positive (monitoring_interval st1)"
    by (auto simp: schedule_accepted_def st1_def split: if_splits)
  with assms(3) obtain e where e: "intervalToCron pf (monitoring_interval st1) = Some e"
    and refused: "\<not> cron_accepts pf e"
    by (auto simp: schedule_accepted_def st1_def split: option.splits)
  from on assms(2) have p: "post_setting pf k v st =
      startMonitoring pf (monitoring_interval st1) st1"
    by (auto simp: post_setting_def Let_def st1_def)
  have s: "settings (snd (post_setting pf k v st)) = settings st1"
    by (simp add: p startMonitoring_refused [OF e refused])
  note m = monitoring_settings [OF s]
  show "fst (post_setting pf k v st) = Inl (Error ''cron.schedule'')"
    "settings (snd (post_setting pf k v st)) = settings (put_setting k v st)"
    "monitoring_enabled (snd (post_setting pf k v st))"
    "positive (monitoring_interval (snd (post_setting pf k v st)))"
    "cronJob (snd (post_setting pf k v st)) = None"
    "cron_tasks (snd (post_setting pf k v st)) = []"
    "currentCronExpression (snd (post_setting pf k v st)) =
       intervalToCron pf (monitoring_interval (snd (post_setting pf k v st)))"
    unfolding m
    using on e
    by (simp_all add: p startMonitoring_refused [OF e refused] empty st1_def [symmetric])
qed

text \<open>
  An interval beyond the largest double on the platform of the examples: the expression is
  refused.
\<close>

lemma startMonitoring_refused_example:
  "fst (startMonitoring example_platform (to_number beyond_doubles) initial_server) =
     Inl (Error ''cron.schedule'') \<and>
   cronJob (snd (startMonitoring example_platform (to_number beyond_doubles) initial_server)) =
     None \<and>
   currentCronExpression
     (snd (startMonitoring example_platform (to_number beyond_doubles) initial_server)) =
     Some ''*/Infinity * * * *''"
proof -
  have "to_number beyond_doubles = Rounded beyond_doubles"
    using beyond_doubles_big by (simp add: to_number_def)
  moreover have "0 < beyond_doubles" using beyond_doubles_big by simp
  ultimately have e: "intervalToCron example_platform (to_number beyond_doubles) =
      Some ''*/Infinity * * * *''"
    by (simp add: intervalToCron_def cron_beyond_def example_platform_def)
  have r: "\<not> cron_accepts example_platform ''*/Infinity * * * *''"
    by (simp add: example_platform_def)
  show ?thesis by (simp add: startMonitoring_refused [OF e r])
qed


section \<open>Properties of the pipeline\<close>

lemma emit_fields [simp]:
  "console (emit e st) = console st @ [e]"
  "changelog_history (emit e st) = changelog_history st"
  "changelog_sources (emit e st) = changelog_sources st"
  "settings (emit e st) = settings st"
  by (simp_all add: emit_def)

lemma console_log_fields [simp]:
  "console (console_log m st) = console st @ [ConsoleLog m]"
  "changelog_history (console_log m st) = changelog_history st"
  "changelog_sources (console_log m st) = changelog_sources st"
  "settings (console_log m st) = settings st"
  by (simp_all add: console_log_def)

lemma get_setting_emit [simp]:
  "get_setting k (emit e st) = get_setting k st"
  "get_setting k (console_log m st) = get_setting k st"
  by (simp_all add: get_setting_def)

lemma saveVersion_fields [simp]:
  "console (saveVersion v i t st) = console st"
  "settings (saveVersion v i t st) = settings st"
  "get_setting k (saveVersion v i t st) = get_setting k st"
  by (simp_all add: saveVersion_def get_setting_def)

lemma markVersionNotified_fields [simp]:
  "console (markVersionNotified v i st) = console st"
  "settings (markVersionNotified v i st) = settings st"
  "changelog_sources (markVersionNotified v i st) = changelog_sources st"
  by (simp_all add: markVersionNotified_def)

lemma markVersionNotified_history:
  "changelog_history st = changelog_history st0 \<Longrightarrow>
   changelog_history (markVersionNotified v i st) = changelog_history (markVersionNotified v i st0)"
  by (simp add: markVersionNotified_def)

lemma fetchChangelog_state [simp]: "snd (fetchChangelog env u st) = emit (HttpGet u) st"
  by (simp add: fetchChangelog_def split: sum.splits)

lemma analyzeChangelog_state [simp]:
  "snd (analyzeChangelog env c st) =
     (if truthy (GEMINI_API_KEY env) then emit (AnalyzerCall c) st else st)"
  by (simp add: analyzeChangelog_def)

lemma generateTTSAudio_state [simp]:
  "snd (generateTTSAudio env t v st) =
     (if truthy (GEMINI_API_KEY env) then emit (TTSCall t v) st else st)"
  by (simp add: generateTTSAudio_def split: sum.splits option.splits)

lemma sendEmailWithAttachment_run:
  "sendEmailWithAttachment env d b st =
     (if truthy (RESEND_API_KEY env) \<and> truthy (NOTIFY_EMAIL env)
      then (resend_send env (length (console st)) (emailPayload env d b),
            emit (MailerCall (emailPayload env d b)) st)
      else (Inr False, st))"
  by (simp add: sendEmailWithAttachment_def)

lemma accepted_in_append:
  "accepted_in env k (xs @ ys) = (accepted_in env k xs \<or> accepted_in env (k + length xs) ys)"
  by (induction xs arbitrary: k) auto

lemma run_ok_refl: "run_ok env dv sid v st st"
  by (simp add: run_ok_def List.map_filter_simps)

lemma run_ok_before:
  assumes "harmless e" and "run_ok env dv sid v (emit e st) st'"
  shows "run_ok env dv sid v st st'"
proof -
  from assms(2) obtain evs where evs: "console st' = console (emit e st) @ evs"
    "list_all (\<lambda>e. fetched_url e = None) evs"
    "list_all (\<lambda>m. \<exists>a b. m = emailPayload env (a\<lparr>data_version := dv\<rparr>) b)
          (List.map_filter mail_of evs)"
    "settings st' = settings (emit e st)"
    "changelog_sources st' = changelog_sources (emit e st)"
    "changelog_history st' =
       (if accepted_in env (length (console (emit e st))) evs
        then changelog_history (markVersionNotified v sid (emit e st))
        else changelog_history (emit e st))"
    unfolding run_ok_def by blast
  have h: "changelog_history (markVersionNotified v sid (emit e st)) =
      changelog_history (markVersionNotified v sid st)"
    by (rule markVersionNotified_history) simp
  from assms(1) have m: "List.map_filter mail_of (e # evs) = List.map_filter mail_of evs"
    and f: "fetched_url e = None" and a: "accepted_in env k (e # evs) = accepted_in env (Suc k) evs" for k
    by (cases e; simp add: harmless_def List.map_filter_simps)+
  show ?thesis
    unfolding run_ok_def
    apply (rule exI [where x = "e # evs"])
    using evs f unfolding m a h by simp
qed

lemma run_ok_after:
  assumes "harmless e" and "run_ok env dv sid v st st'"
  shows "run_ok env dv sid v st (emit e st')"
proof -
  from assms(2) obtain evs where evs: "console st' = console st @ evs"
    "list_all (\<lambda>e. fetched_url e = None) evs"
    "list_all (\<lambda>m. \<exists>a b. m = emailPayload env (a\<lparr>data_version := dv\<rparr>) b)
          (List.map_filter mail_of evs)"
    "settings st' = settings st"
    "changelog_sources st' = changelog_sources st"
    "changelog_history st' =
       (if accepted_in env (length (console st)) evs
        then changelog_history (markVersionNotified v sid st)
        else changelog_history st)"
    unfolding run_ok_def by blast
  from assms(1) have m: "List.map_filter mail_of (evs @ [e]) = List.map_filter mail_of evs"
    and f: "fetched_url e = None"
    by (simp_all add: harmless_def List.map_filter_def)
  from assms(1) have a: "\<not> accepted_in env k [e]" for k
    by (cases e) (simp_all add: harmless_def)
  show ?thesis
    unfolding run_ok_def
    apply (rule exI [where x = "evs @ [e]"])
    using evs f a unfolding m by (auto simp: accepted_in_append)
qed

lemma harmless_events [simp]:
  "harmless (ConsoleLog m)" "harmless (AnalyzerCall c)" "harmless (TTSCall t v)"
  "harmless (ConsoleError m x)"
  by (simp_all add: harmless_def)

lemma run_ok_log_before: "run_ok env dv sid v (console_log m st) st' \<Longrightarrow> run_ok env dv sid v st st'"
  unfolding console_log_def by (rule run_ok_before) simp_all

lemma run_ok_log_after: "run_ok env dv sid v st st' \<Longrightarrow> run_ok env dv sid v st (console_log m st')"
  unfolding console_log_def by (rule run_ok_after) simp_all

lemma run_ok_mail:
  assumes "resend_send env (length (console st)) (emailPayload env (a\<lparr>data_version := dv\<rparr>) b) \<noteq>
    Inr True"
  shows "run_ok env dv sid v st (emit (MailerCall (emailPayload env (a\<lparr>data_version := dv\<rparr>) b)) st)"
  unfolding run_ok_def
  apply (rule exI [where x = "[MailerCall (emailPayload env (a\<lparr>data_version := dv\<rparr>) b)]"])
  using assms apply (auto simp: List.map_filter_simps)
  done

lemma run_ok_mail_marked:
  assumes "resend_send env (length (console st)) (emailPayload env (a\<lparr>data_version := dv\<rparr>) b) = Inr True"
  shows "run_ok env dv sid v st
     (markVersionNotified v sid (emit (MailerCall (emailPayload env (a\<lparr>data_version := dv\<rparr>) b)) st))"
  unfolding run_ok_def
  apply (rule exI [where x = "[MailerCall (emailPayload env (a\<lparr>data_version := dv\<rparr>) b)]"])
  using assms apply (auto simp: List.map_filter_simps intro: markVersionNotified_history)
  done

lemma send_stage_ok:
  "run_ok env dv (src_id source) (version latest) st
     (snd (send_stage env source latest (a\<lparr>data_version := dv\<rparr>) b st))"
proof -
  define st5 where
    "st5 = console_log (''[Monitor] Sending notification email for '' @ name source @ ''...'') st"
  define p where "p = emailPayload env (a\<lparr>data_version := dv\<rparr>) b"
  have "run_ok env dv (src_id source) (version latest) st5
     (snd (send_stage env source latest (a\<lparr>data_version := dv\<rparr>) b st))"
  proof (cases "truthy (RESEND_API_KEY env) \<and> truthy (NOTIFY_EMAIL env)")
    case False
    then show ?thesis
      unfolding send_stage_def Let_def sendEmailWithAttachment_run st5_def [symmetric]
      by (auto intro!: run_ok_log_after run_ok_refl)
  next
    case True
    show ?thesis
    proof (cases "resend_send env (length (console st5)) p")
      case (Inl e)
      with True show ?thesis
        unfolding send_stage_def Let_def sendEmailWithAttachment_run st5_def [symmetric]
          p_def [symmetric]
        by (simp add: p_def run_ok_mail)
    next
      case (Inr sent)
      with True show ?thesis
        unfolding send_stage_def Let_def sendEmailWithAttachment_run st5_def [symmetric]
          p_def [symmetric]
        by (auto simp: p_def intro!: run_ok_log_after run_ok_mail run_ok_mail_marked)
    qed
  qed
  then show ?thesis unfolding st5_def by (rule run_ok_log_before)
qed

lemma run_ok_emit_self: "harmless e \<Longrightarrow> run_ok env dv sid v st (emit e st)"
  by (rule run_ok_after) (simp_all add: run_ok_refl)

lemma audio_stage_ok:
  "run_ok env dv (src_id source) (version latest) st
     (snd (audio_stage env source latest (a\<lparr>data_version := dv\<rparr>) st))"
proof -
  define st3 where
    "st3 = console_log (''[Monitor] Generating audio for '' @ name source @ ''...'') st"
  define voice' where "voice' = (case get_setting ''notificationVoice'' st3 of
                      None \<Rightarrow> ''Charon''
                    | Some v \<Rightarrow> if v = [] then ''Charon'' else v)"
  define t where "t = tldr (a\<lparr>data_version := dv\<rparr>)"
  define st4 where "st4 = (if truthy (GEMINI_API_KEY env) then emit (TTSCall t voice') st3 else st3)"
  define r4 where "r4 = fst (generateTTSAudio env t voice' st3)"
  have "snd (generateTTSAudio env t voice' st3) = st4"
    unfolding st4_def by (rule generateTTSAudio_state)
  then have g: "generateTTSAudio env t voice' st3 = (r4, st4)"
    unfolding r4_def by (simp add: prod_eq_iff)
  have unfold: "audio_stage env source latest (a\<lparr>data_version := dv\<rparr>) st =
      (case r4 of Inl e \<Rightarrow> (Inl e, st4)
       | Inr audioBuffer \<Rightarrow> send_stage env source latest (a\<lparr>data_version := dv\<rparr>) audioBuffer st4)"
    unfolding audio_stage_def Let_def st3_def [symmetric] voice'_def [symmetric] t_def [symmetric]
    by (simp only: g prod.case)
  have "run_ok env dv (src_id source) (version latest) st3
     (snd (audio_stage env source latest (a\<lparr>data_version := dv\<rparr>) st))"
  proof (cases r4)
    case (Inl e)
    then show ?thesis
      unfolding unfold by (simp add: st4_def run_ok_refl run_ok_emit_self)
  next
    case (Inr audioBuffer)
    show ?thesis
    proof (cases "truthy (GEMINI_API_KEY env)")
      case True
      have "run_ok env dv (src_id source) (version latest) st3
         (snd (send_stage env source latest (a\<lparr>data_version := dv\<rparr>) audioBuffer
           (emit (TTSCall t voice') st3)))"
        by (rule run_ok_before [where e = "TTSCall t voice'"]) (simp_all add: send_stage_ok)
      with True Inr show ?thesis unfolding unfold by (simp add: st4_def)
    next
      case False
      with Inr show ?thesis unfolding unfold by (simp add: st4_def send_stage_ok)
    qed
  qed
  then show ?thesis unfolding st3_def by (rule run_ok_log_before)
qed

lemma notify_stages_ok:
  "run_ok env (name source @ '' '' @ version latest) (src_id source) (version latest) st
     (snd (notify_stages env source latest st))"
proof -
  define st1 where
    "st1 = console_log (''[Monitor] Analyzing changelog for '' @ name source @ ''...'') st"
  define st2 where "st2 = (if truthy (GEMINI_API_KEY env)
      then emit (AnalyzerCall (content latest)) st1 else st1)"
  define dv where "dv = name source @ '' '' @ version latest"
  define r2 where "r2 = fst (analyzeChangelog env (content latest) st1)"
  have "snd (analyzeChangelog env (content latest) st1) = st2"
    unfolding st2_def by (rule analyzeChangelog_state)
  then have g: "analyzeChangelog env (content latest) st1 = (r2, st2)"
    unfolding r2_def by (simp add: prod_eq_iff)
  have unfold: "notify_stages env source latest st =
      (case r2 of
         Inl e \<Rightarrow> (Inl e, st2)
       | Inr None \<Rightarrow>
           (Inr (), console_log (''[Monitor] Failed to analyze changelog for '' @ name source) st2)
       | Inr (Some analysis) \<Rightarrow>
           audio_stage env source latest (analysis\<lparr>data_version := dv\<rparr>) st2)"
    unfolding notify_stages_def Let_def st1_def [symmetric] dv_def [symmetric]
    by (simp only: g prod.case)
  have s12: "run_ok env dv (src_id source) (version latest) st1 st2"
    by (simp add: st2_def run_ok_refl run_ok_emit_self)
  have "run_ok env dv (src_id source) (version latest) st1
     (snd (notify_stages env source latest st))"
  proof (cases r2)
    case (Inl e)
    with s12 show ?thesis unfolding unfold by simp
  next
    case (Inr res)
    show ?thesis
    proof (cases res)
      case None
      with Inr s12 show ?thesis unfolding unfold by (simp add: run_ok_log_after)
    next
      case (Some analysis)
      show ?thesis
      proof (cases "truthy (GEMINI_API_KEY env)")
        case True
        have "run_ok env dv (src_id source) (version latest) st1
           (snd (audio_stage env source latest (analysis\<lparr>data_version := dv\<rparr>)
             (emit (AnalyzerCall (content latest)) st1)))"
          by (rule run_ok_before [where e = "AnalyzerCall (content latest)"])
            (simp_all add: audio_stage_ok)
        with True Inr Some show ?thesis unfolding unfold by (simp add: st2_def)
      next
        case False
        with Inr Some show ?thesis unfolding unfold by (simp add: st2_def audio_stage_ok)
      qed
    qed
  qed
  then show ?thesis unfolding st1_def dv_def by (rule run_ok_log_before)
qed

lemma getLastKnownVersion_history:
  "changelog_history st = changelog_history st0 \<Longrightarrow>
   getLastKnownVersion i st = getLastKnownVersion i st0"
  by (cases i) (simp_all add: getLastKnownVersion_def)

lemma saveVersion_history:
  "changelog_history st = changelog_history st0 \<Longrightarrow>
   changelog_history (saveVersion v i t st) = changelog_history (saveVersion v i t st0)"
  by (simp add: saveVersion_def)

lemma fetchChangelog_result:
  "fst (fetchChangelog env u st) = Inr md \<Longrightarrow>
   \<exists>status. http_get env (length (console st)) u = Inr (status, md)"
  by (auto simp: fetchChangelog_def split: sum.splits if_splits)

lemma service_free_plain:
  "list_all (\<lambda>e. \<not> is_service_call e) [ConsoleLog a, HttpGet u, ConsoleLog b]"
  "list_all (\<lambda>e. \<not> is_service_call e) [ConsoleLog a, HttpGet u]"
  "list_all (\<lambda>e. \<not> is_service_call e) [ConsoleLog a, HttpGet u, ConsoleLog b, ConsoleLog c]"
  "list_all (\<lambda>e. \<not> is_service_call e) [ConsoleLog a, HttpGet u, ConsoleLog b, ConsoleLog c, ConsoleLog d]"
  by simp_all

lemma record_stage_cases:
  fixes env source latest st2
  defines "lastKnown \<equiv> getLastKnownVersion (Some (src_id source)) st2"
  defines "st3 \<equiv> console_log (''[Monitor] '' @ name source @ '': Latest: '' @ version latest @
                             '', Last known: '' @ show_null lastKnown) st2"
  defines "st4 \<equiv> console_log (''[Monitor] '' @ name source @
                                  '': New version detected: '' @ version latest) st3"
  defines "st5 \<equiv> saveVersion (version latest) (src_id source)
                       (current_timestamp env (length (console st4))) st4"
  shows "record_stage env source latest st2 =
     (if lastKnown = Some (version latest)
      then (Inr (), console_log (''[Monitor] '' @ name source @ '': No new version detected'') st3)
      else if get_setting ''emailNotificationsEnabled'' st2 = Some ''true''
        then notify_stages env source latest st5
        else (Inr (), console_log (''[Monitor] Email notifications disabled for '' @
                                         name source @ '', skipping'') st5))"
  unfolding record_stage_def Let_def lastKnown_def st3_def st4_def st5_def
  by simp

lemma map_filter_none:
  "list_all (\<lambda>e. f e = None) xs \<Longrightarrow> List.map_filter f xs = []"
  by (induction xs) (simp_all add: List.map_filter_simps)

lemma map_filter_append:
  "List.map_filter f (xs @ ys) = List.map_filter f xs @ List.map_filter f ys"
  by (simp add: List.map_filter_def)

lemma cycle_ok_plain:
  assumes "console st' = console st @ evs" and "List.map_filter fetched_url evs = [url source]"
    and "list_all (\<lambda>e. \<not> is_service_call e) evs" and "settings st' = settings st"
    and "changelog_history st' = changelog_history st"
  shows "cycle_ok env source st st'"
  unfolding cycle_ok_def using assms by blast

lemma checkSource_try_cycle:
  "cycle_ok env source st (snd (checkSource_try env source st))"
proof -
  define st1 where "st1 = console_log (''[Monitor] Checking source: '' @ name source @ '' ('' @
      url source @ '')'') st"
  define st2 where "st2 = emit (HttpGet (url source)) st1"
  define r where "r = fst (fetchChangelog env (url source) st1)"
  have f: "fetchChangelog env (url source) st1 = (r, st2)"
    unfolding r_def st2_def by (simp add: prod_eq_iff)
  have c2: "console st2 = console st @ [ConsoleLog (''[Monitor] Checking source: '' @ name source @
      '' ('' @ url source @ '')''), HttpGet (url source)]"
    and h2: "changelog_history st2 = changelog_history st" and s2: "settings st2 = settings st"
    by (simp_all add: st2_def st1_def)
  have unfold: "checkSource_try env source st =
      (case r of
         Inl e \<Rightarrow> (Inl e, st2)
       | Inr markdown \<Rightarrow>
           (case parseLatestVersion markdown of
              None \<Rightarrow>
                (Inr (), console_log (''[Monitor] Could not parse changelog for '' @ name source) st2)
            | Some latest \<Rightarrow> record_stage env source latest st2))"
    unfolding checkSource_try_def Let_def st1_def [symmetric] by (simp only: f prod.case)
  show ?thesis
  proof (cases r)
    case (Inl e)
    then show ?thesis
      unfolding unfold
      by (auto intro!: cycle_ok_plain [where evs = "[ConsoleLog m, HttpGet (url source)]" for m]
          simp: c2 h2 s2 List.map_filter_simps)
  next
    case (Inr markdown)
    then obtain status where
      http: "http_get env (Suc (length (console st))) (url source) = Inr (status, markdown)"
      using fetchChangelog_result [of env "url source" st1 markdown]
      by (auto simp: r_def st1_def)
    show ?thesis
    proof (cases "parseLatestVersion markdown")
      case None
      with Inr show ?thesis
        unfolding unfold
        by (auto intro!: cycle_ok_plain
            [where evs = "[ConsoleLog m, HttpGet (url source), ConsoleLog m']" for m m']
            simp: c2 h2 s2 List.map_filter_simps)
    next
      case (Some latest)
      define lastKnown where "lastKnown = getLastKnownVersion (Some (src_id source)) st2"
      have lk: "lastKnown = getLastKnownVersion (Some (src_id source)) st"
        unfolding lastKnown_def using h2 by (rule getLastKnownVersion_history)
      define st3 where "st3 = console_log (''[Monitor] '' @ name source @ '': Latest: '' @
          version latest @ '', Last known: '' @ show_null lastKnown) st2"
      define st4 where "st4 = console_log (''[Monitor] '' @ name source @
          '': New version detected: '' @ version latest) st3"
      define t where "t = current_timestamp env (length (console st4))"
      define st5 where "st5 = saveVersion (version latest) (src_id source) t st4"
      have c5: "console st5 = console st @ [ConsoleLog (''[Monitor] Checking source: '' @
          name source @ '' ('' @ url source @ '')''), HttpGet (url source),
          ConsoleLog (''[Monitor] '' @ name source @ '': Latest: '' @
          version latest @ '', Last known: '' @ show_null lastKnown),
          ConsoleLog (''[Monitor] '' @ name source @
          '': New version detected: '' @ version latest)]"
        by (simp add: st5_def st4_def st3_def c2)
      have h5: "changelog_history st5 =
          changelog_history (saveVersion (version latest) (src_id source) t st)"
        unfolding st5_def by (rule saveVersion_history) (simp add: st4_def st3_def h2)
      have s5: "settings st5 = settings st" by (simp add: st5_def st4_def st3_def s2)
      have rs: "record_stage env source latest st2 =
         (if lastKnown = Some (version latest)
          then (Inr (), console_log (''[Monitor] '' @ name source @ '': No new version detected'') st3)
          else if get_setting ''emailNotificationsEnabled'' st2 = Some ''true''
            then notify_stages env source latest st5
            else (Inr (), console_log (''[Monitor] Email notifications disabled for '' @
                                         name source @ '', skipping'') st5))"
        unfolding lastKnown_def st3_def st4_def st5_def t_def by (rule record_stage_cases)
      show ?thesis
      proof (cases "lastKnown = Some (version latest)")
        case True
        with Inr Some show ?thesis
          unfolding unfold
          by (auto intro!: cycle_ok_plain
              [where evs = "[ConsoleLog m, HttpGet (url source), ConsoleLog m', ConsoleLog m'']"
                for m m' m'']
              simp: rs st3_def c2 h2 s2 List.map_filter_simps)
      next
        case new: False
        show ?thesis
        proof (cases "get_setting ''emailNotificationsEnabled'' st2 = Some ''true''")
          case False
          have "cycle_ok env source st (console_log (''[Monitor] Email notifications disabled for '' @
                                         name source @ '', skipping'') st5)"
            unfolding cycle_ok_def
            apply (rule exI [where x = "[ConsoleLog (''[Monitor] Checking source: '' @
          name source @ '' ('' @ url source @ '')''), HttpGet (url source),
          ConsoleLog (''[Monitor] '' @ name source @ '': Latest: '' @
          version latest @ '', Last known: '' @ show_null lastKnown),
          ConsoleLog (''[Monitor] '' @ name source @
          '': New version detected: '' @ version latest),
          ConsoleLog (''[Monitor] Email notifications disabled for '' @
                                         name source @ '', skipping'')]"])
            apply (intro conjI disjI2)
               apply (simp add: c5)
              apply (simp add: List.map_filter_simps)
             apply (simp add: s5)
            apply (rule exI [where x = latest], rule exI [where x = status],
                rule exI [where x = markdown], rule exI [where x = t])
            using http Some new lk apply (simp add: h5 List.map_filter_simps)
            done
          with Inr Some new False show ?thesis unfolding unfold by (simp add: rs)
        next
          case True
          define st' where "st' = snd (notify_stages env source latest st5)"
          have "run_ok env (name source @ '' '' @ version latest) (src_id source) (version latest)
              st5 st'"
            unfolding st'_def by (rule notify_stages_ok)
          then obtain evs where evs: "console st' = console st5 @ evs"
            "list_all (\<lambda>e. fetched_url e = None) evs"
            "list_all (\<lambda>m. \<exists>a b. m = emailPayload env
                (a\<lparr>data_version := name source @ '' '' @ version latest\<rparr>) b)
              (List.map_filter mail_of evs)"
            "settings st' = settings st5"
            "changelog_history st' =
               (if accepted_in env (length (console st5)) evs
                then changelog_history (markVersionNotified (version latest) (src_id source) st5)
                else changelog_history st5)"
            unfolding run_ok_def by blast
          define pre where "pre = [ConsoleLog (''[Monitor] Checking source: '' @
              name source @ '' ('' @ url source @ '')''), HttpGet (url source),
              ConsoleLog (''[Monitor] '' @ name source @ '': Latest: '' @
              version latest @ '', Last known: '' @ show_null lastKnown),
              ConsoleLog (''[Monitor] '' @ name source @
              '': New version detected: '' @ version latest)]"
          have c5': "console st5 = console st @ pre" unfolding pre_def by (rule c5)
          have len: "length (console st5) = length (console st) + length pre"
            by (simp add: c5')
          have m1: "List.map_filter fetched_url (pre @ evs) = [url source]"
            by (simp add: map_filter_append map_filter_none [OF evs(2)])
              (simp add: pre_def List.map_filter_simps)
          have m2: "List.map_filter mail_of (pre @ evs) = List.map_filter mail_of evs"
            by (simp add: map_filter_append) (simp add: pre_def List.map_filter_simps)
          have hm: "changelog_history (markVersionNotified (version latest) (src_id source) st5) =
              changelog_history (markVersionNotified (version latest) (src_id source)
                (saveVersion (version latest) (src_id source) t st))"
            using h5 by (rule markVersionNotified_history)
          have acc: "accepted_in env (length (console st)) (pre @ evs) =
              accepted_in env (length (console st5)) evs"
            by (simp add: accepted_in_append len) (simp add: pre_def)
          have "cycle_ok env source st st'"
            unfolding cycle_ok_def
            apply (rule exI [where x = "pre @ evs"])
            apply (intro conjI disjI2)
               apply (simp add: evs(1) c5')
              apply (rule m1)
             apply (simp add: evs(4) s5)
            apply (rule exI [where x = latest], rule exI [where x = status],
                rule exI [where x = markdown], rule exI [where x = t])
            using http Some new lk evs(3) evs(5) acc
            apply (auto simp: m2 h5 hm)
            done
          with Inr Some new True show ?thesis unfolding unfold st'_def by (simp add: rs)
        qed
      qed
    qed
  qed
qed

lemma cycle_ok_error:
  assumes "cycle_ok env source st st'"
  shows "cycle_ok env source st (emit (ConsoleError m e) st')"
proof -
  from assms obtain evs where evs: "console st' = console st @ evs"
    and rest: "List.map_filter fetched_url evs = [url source] \<and>
        settings st' = settings st \<and>
        (list_all (\<lambda>e. \<not> is_service_call e) evs \<and>
         changelog_history st' = changelog_history st \<or>
         (\<exists>latest status markdown t.
            http_get env (Suc (length (console st))) (url source) = Inr (status, markdown) \<and>
            parseLatestVersion markdown = Some latest \<and>
            getLastKnownVersion (Some (src_id source)) st \<noteq> Some (version latest) \<and>
            list_all (\<lambda>m. \<exists>a b. m = emailPayload env
                         (a\<lparr>data_version := name source @ '' '' @ version latest\<rparr>) b)
              (List.map_filter mail_of evs) \<and>
            changelog_history st' =
              (if accepted_in env (length (console st)) evs
               then changelog_history (markVersionNotified (version latest) (src_id source)
                      (saveVersion (version latest) (src_id source) t st))
               else changelog_history (saveVersion (version latest) (src_id source) t st))))"
    unfolding cycle_ok_def by blast
  have m: "List.map_filter fetched_url (evs @ [ConsoleError m e]) = List.map_filter fetched_url evs"
    "List.map_filter mail_of (evs @ [ConsoleError m e]) = List.map_filter mail_of evs"
    by (simp_all add: map_filter_append List.map_filter_simps)
  show ?thesis
    unfolding cycle_ok_def
    apply (rule exI [where x = "evs @ [ConsoleError m e]"])
    unfolding m
    using evs rest by (auto simp: accepted_in_append)
qed


lemma checkSource_cycle:
  "cycle_ok env source st (snd (checkSourceForNewChangelog env source st))"
proof (cases "fst (checkSource_try env source st)")
  case (Inl e)
  then have "snd (checkSourceForNewChangelog env source st) =
      emit (ConsoleError (''[Monitor] Error checking '' @ name source @ '':'') e)
        (snd (checkSource_try env source st))"
    by (simp add: checkSourceForNewChangelog_def split_beta)
  then show ?thesis by (simp only: cycle_ok_error [OF checkSource_try_cycle])
next
  case (Inr u)
  then have "snd (checkSourceForNewChangelog env source st) = snd (checkSource_try env source st)"
    by (simp add: checkSourceForNewChangelog_def split_beta)
  then show ?thesis by (simp only: checkSource_try_cycle)
qed


lemma added_eq: "console st' = console st @ evs \<Longrightarrow> added st st' = evs"
  by (simp add: added_def)



lemma is_notified_history:
  "changelog_history a = changelog_history b \<Longrightarrow> is_notified v i a = is_notified v i b"
  by (simp add: is_notified_def)

lemma has_record_history:
  "changelog_history a = changelog_history b \<Longrightarrow> has_record v i a = has_record v i b"
  by (simp add: has_record_def)

lemma is_notified_saveVersion [simp]:
  "is_notified v i (saveVersion v0 s t st) = is_notified v i st"
  by (auto simp: is_notified_def saveVersion_def list_ex_iff)

lemma is_notified_mark:
  "is_notified v i (markVersionNotified v0 s st) =
     (is_notified v i st \<or> v = v0 \<and> i = s \<and> has_record v0 s st)"
proof -
  have "list_ex (\<lambda>r. row_version r = v \<and> source_id r = Some i \<and> notified r)
      (map (\<lambda>r. if row_version r = v0 \<and> source_id r = Some s
                then r\<lparr>notified := True\<rparr> else r) hs) =
    (list_ex (\<lambda>r. row_version r = v \<and> source_id r = Some i \<and> notified r) hs \<or>
     v = v0 \<and> i = s \<and> list_ex (\<lambda>r. row_version r = v0 \<and> source_id r = Some s) hs)" for hs
    by (induction hs) auto
  then show ?thesis
    by (simp add: is_notified_def has_record_def markVersionNotified_def)
qed

lemma has_record_mark:
  "has_record v i (markVersionNotified v0 s st) = has_record v i st"
proof -
  have "list_ex (\<lambda>r. row_version r = v \<and> source_id r = Some i)
      (map (\<lambda>r. if row_version r = v0 \<and> source_id r = Some s
                then r\<lparr>notified := True\<rparr> else r) hs) =
    list_ex (\<lambda>r. row_version r = v \<and> source_id r = Some i) hs" for hs
    by (induction hs) auto
  then show ?thesis by (simp add: has_record_def markVersionNotified_def)
qed

lemma accepted_in_service_free:
  "list_all (\<lambda>e. \<not> is_service_call e) evs \<Longrightarrow> \<not> accepted_in env k evs"
proof (induction evs arbitrary: k)
  case Nil
  show ?case by simp
next
  case (Cons e evs)
  then show ?case by (cases e) simp_all
qed

text \<open>
  C6: within a cycle the mark of a version and a source is set only when the mail service
  accepted a request of that cycle, and then for the source of the cycle and the version
  parsed in it; when no request was accepted, because the send failed or was never made,
  every mark is as before; a mark that is set stays set; and when the service accepted a
  request, the row of the history for the parsed version and the source of the cycle, if
  there is one, carries the mark after the cycle.
\<close>

theorem notified_only_after_send:
  "(is_notified v i st \<longrightarrow> is_notified v i (snd (checkSourceForNewChangelog env source st))) \<and>
   (is_notified v i (snd (checkSourceForNewChangelog env source st)) \<and> \<not> is_notified v i st \<longrightarrow>
      sent_ok env st (snd (checkSourceForNewChangelog env source st)) \<and> i = src_id source \<and>
      (\<exists>status markdown latest.
         http_get env (Suc (length (console st))) (url source) = Inr (status, markdown) \<and>
         parseLatestVersion markdown = Some latest \<and> v = version latest)) \<and>
   (\<not> sent_ok env st (snd (checkSourceForNewChangelog env source st)) \<longrightarrow>
      is_notified v i (snd (checkSourceForNewChangelog env source st)) = is_notified v i st) \<and>
   (sent_ok env st (snd (checkSourceForNewChangelog env source st)) \<longrightarrow>
      (\<exists>status markdown latest.
         http_get env (Suc (length (console st))) (url source) = Inr (status, markdown) \<and>
         parseLatestVersion markdown = Some latest \<and>
         (has_record (version latest) (src_id source)
            (snd (checkSourceForNewChangelog env source st)) \<longrightarrow>
          is_notified (version latest) (src_id source)
            (snd (checkSourceForNewChangelog env source st)))))"
proof -
  define st' where "st' = snd (checkSourceForNewChangelog env source st)"
  have "cycle_ok env source st st'" unfolding st'_def by (rule checkSource_cycle)
  then obtain evs where evs: "console st' = console st @ evs"
    and cases: "list_all (\<lambda>e. \<not> is_service_call e) evs \<and>
         changelog_history st' = changelog_history st \<or>
         (\<exists>latest status markdown t.
            http_get env (Suc (length (console st))) (url source) = Inr (status, markdown) \<and>
            parseLatestVersion markdown = Some latest \<and>
            changelog_history st' =
              (if accepted_in env (length (console st)) evs
               then changelog_history (markVersionNotified (version latest) (src_id source)
                      (saveVersion (version latest) (src_id source) t st))
               else changelog_history (saveVersion (version latest) (src_id source) t st)))"
    unfolding cycle_ok_def by blast
  have so: "sent_ok env st st' = accepted_in env (length (console st)) evs"
    by (simp add: sent_ok_def added_eq [OF evs])
  let ?G = "(is_notified v i st \<longrightarrow> is_notified v i st') \<and>
   (is_notified v i st' \<and> \<not> is_notified v i st \<longrightarrow>
      sent_ok env st st' \<and> i = src_id source \<and>
      (\<exists>status markdown latest.
         http_get env (Suc (length (console st))) (url source) = Inr (status, markdown) \<and>
         parseLatestVersion markdown = Some latest \<and> v = version latest)) \<and>
   (\<not> sent_ok env st st' \<longrightarrow> is_notified v i st' = is_notified v i st) \<and>
   (sent_ok env st st' \<longrightarrow>
      (\<exists>status markdown latest.
         http_get env (Suc (length (console st))) (url source) = Inr (status, markdown) \<and>
         parseLatestVersion markdown = Some latest \<and>
         (has_record (version latest) (src_id source) st' \<longrightarrow>
          is_notified (version latest) (src_id source) st')))"
  from cases have ?G
  proof (elim disjE exE conjE)
    assume free: "list_all (\<lambda>e. \<not> is_service_call e) evs"
      and same: "changelog_history st' = changelog_history st"
    from same have "is_notified v i st' = is_notified v i st" by (rule is_notified_history)
    moreover from free have "\<not> sent_ok env st st'"
      unfolding so by (rule accepted_in_service_free)
    ultimately show ?G by (simp only: simp_thms)
  next
    fix latest status markdown t
    assume h: "http_get env (Suc (length (console st))) (url source) = Inr (status, markdown)"
      "parseLatestVersion markdown = Some latest"
      and m: "changelog_history st' =
              (if accepted_in env (length (console st)) evs
               then changelog_history (markVersionNotified (version latest) (src_id source)
                      (saveVersion (version latest) (src_id source) t st))
               else changelog_history (saveVersion (version latest) (src_id source) t st))"
    show ?G
    proof (cases "accepted_in env (length (console st)) evs")
      case False
      with m have "changelog_history st' =
          changelog_history (saveVersion (version latest) (src_id source) t st)" by simp
      then have "is_notified v i st' = is_notified v i st"
        by (simp add: is_notified_history [of st'])
      with False show ?G unfolding so by (simp only: simp_thms)
    next
      case True
      with m have m': "changelog_history st' =
          changelog_history (markVersionNotified (version latest) (src_id source)
            (saveVersion (version latest) (src_id source) t st))" by simp
      have n: "is_notified w j st' =
          (is_notified w j st \<or> w = version latest \<and> j = src_id source \<and>
           has_record (version latest) (src_id source)
             (saveVersion (version latest) (src_id source) t st))" for w j
        by (simp add: is_notified_history [OF m'] is_notified_mark)
      have "has_record (version latest) (src_id source) st' =
          has_record (version latest) (src_id source)
            (saveVersion (version latest) (src_id source) t st)"
        by (simp only: has_record_history [OF m'] has_record_mark)
      then have flip: "has_record (version latest) (src_id source) st' \<longrightarrow>
          is_notified (version latest) (src_id source) st'"
        by (simp add: n)
      have g1: "is_notified v i st \<longrightarrow> is_notified v i st'" by (simp add: n)
      have w: "\<exists>status markdown latest'.
          http_get env (Suc (length (console st))) (url source) = Inr (status, markdown) \<and>
          parseLatestVersion markdown = Some latest' \<and> version latest = version latest'"
        using h by blast
      have g2: "is_notified v i st' \<and> \<not> is_notified v i st \<longrightarrow>
          sent_ok env st st' \<and> i = src_id source \<and>
          (\<exists>status markdown latest.
             http_get env (Suc (length (console st))) (url source) = Inr (status, markdown) \<and>
             parseLatestVersion markdown = Some latest \<and> v = version latest)"
      proof
        assume "is_notified v i st' \<and> \<not> is_notified v i st"
        then have "v = version latest" "i = src_id source" unfolding n by blast+
        with w True show "sent_ok env st st' \<and> i = src_id source \<and>
          (\<exists>status markdown latest.
             http_get env (Suc (length (console st))) (url source) = Inr (status, markdown) \<and>
             parseLatestVersion markdown = Some latest \<and> v = version latest)"
          unfolding so by simp
      qed
      have g3: "\<not> sent_ok env st st' \<longrightarrow> is_notified v i st' = is_notified v i st"
        unfolding so using True by simp
      have g4: "sent_ok env st st' \<longrightarrow>
          (\<exists>status markdown latest.
             http_get env (Suc (length (console st))) (url source) = Inr (status, markdown) \<and>
             parseLatestVersion markdown = Some latest \<and>
             (has_record (version latest) (src_id source) st' \<longrightarrow>
              is_notified (version latest) (src_id source) st'))"
        using h flip by blast
      from g1 g2 g3 g4 show ?G by (intro conjI)
    qed
  qed
  then show ?thesis unfolding st'_def .
qed

lemma join_nl_last:
  "ls \<noteq> [] \<Longrightarrow> last ls = a @ b \<Longrightarrow> join_nl ls = join_nl (butlast ls @ [a]) @ b"
proof (induction ls rule: join_nl.induct)
  case 1
  then show ?case by simp
next
  case (2 l)
  then show ?case by simp
next
  case (3 l v va)
  then show ?case by (cases va) simp_all
qed

lemma html_head_ends: "\<exists>pre. html_head = pre @ ''<h1>''"
proof -
  show ?thesis
    unfolding html_head_def
    by (rule exI, rule join_nl_last [where a = "''  ''"]) simp_all
qed

lemma html_tldr_open_starts: "\<exists>post. html_tldr_open = '' Released</h1>'' @ post"
  by (simp add: html_tldr_open_def)

lemma generateEmailHtml_heading:
  "\<exists>pre e post. generateEmailHtml d =
     pre @ ''<h1>'' @ e @ '' Claude Code '' @ data_version d @ '' Released</h1>'' @ post"
proof -
  obtain pre where pre: "html_head = pre @ ''<h1>''" using html_head_ends by blast
  obtain post where post: "html_tldr_open = '' Released</h1>'' @ post"
    using html_tldr_open_starts by blast
  show ?thesis
    unfolding generateEmailHtml_def pre post
    by (intro exI [where x = pre] exI [where x = "sentimentEmoji (sentiment d)"] exI)
      (simp only: append_assoc)
qed

text \<open>
  C10: every email that a cycle sends for a source has the subject made of the symbol,
  \<open>Claude Code\<close>, the name of the source, the version parsed in the cycle and
  \<open>Released\<close>, and a body whose heading is a symbol followed by the same words; the name of
  the source and the version are what the cycle writes into the field \<open>version\<close> of the
  analysis. So \<open>Claude Code\<close> stands in the subject and in the heading whatever the source.
\<close>

theorem notification_subject:
  assumes "m \<in> set (List.map_filter mail_of
      (added st (snd (checkSourceForNewChangelog env source st))))"
  shows "\<exists>status markdown latest pre e post.
     http_get env (Suc (length (console st))) (url source) = Inr (status, markdown) \<and>
     parseLatestVersion markdown = Some latest \<and>
     subject m = subject_emoji @ '' Claude Code '' @ (name source @ '' '' @ version latest) @
       '' Released'' \<and>
     html m = pre @ ''<h1>'' @ e @ '' Claude Code '' @ (name source @ '' '' @ version latest) @
       '' Released</h1>'' @ post"
proof -
  define st' where "st' = snd (checkSourceForNewChangelog env source st)"
  have "cycle_ok env source st st'" unfolding st'_def by (rule checkSource_cycle)
  then obtain evs where evs: "console st' = console st @ evs"
    and cases: "list_all (\<lambda>e. \<not> is_service_call e) evs \<or>
         (\<exists>latest status markdown.
            http_get env (Suc (length (console st))) (url source) = Inr (status, markdown) \<and>
            parseLatestVersion markdown = Some latest \<and>
            list_all (\<lambda>m. \<exists>a b. m = emailPayload env
                         (a\<lparr>data_version := name source @ '' '' @ version latest\<rparr>) b)
              (List.map_filter mail_of evs))"
    unfolding cycle_ok_def by blast
  from assms have m: "m \<in> set (List.map_filter mail_of evs)"
    by (simp add: st'_def [symmetric] added_eq [OF evs])
  have "list_all (\<lambda>e. \<not> is_service_call e) xs \<Longrightarrow> List.map_filter mail_of xs = []" for xs
  proof (induction xs)
    case Nil
    show ?case by (simp add: List.map_filter_simps)
  next
    case (Cons x xs)
    then show ?case by (cases x) (simp_all add: List.map_filter_simps)
  qed
  with cases m obtain latest status markdown where
    h: "http_get env (Suc (length (console st))) (url source) = Inr (status, markdown)"
      "parseLatestVersion markdown = Some latest"
    and all: "list_all (\<lambda>m. \<exists>a b. m = emailPayload env
                         (a\<lparr>data_version := name source @ '' '' @ version latest\<rparr>) b)
              (List.map_filter mail_of evs)"
    by auto
  from all m obtain a b where
    mp: "m = emailPayload env (a\<lparr>data_version := name source @ '' '' @ version latest\<rparr>) b"
    by (auto simp: list_all_iff)
  from generateEmailHtml_heading
    [of "a\<lparr>data_version := name source @ '' '' @ version latest\<rparr>"]
  obtain pre e post where "generateEmailHtml
      (a\<lparr>data_version := name source @ '' '' @ version latest\<rparr>) =
     pre @ ''<h1>'' @ e @ '' Claude Code '' @ (name source @ '' '' @ version latest) @
       '' Released</h1>'' @ post"
    by auto
  then have "html m = pre @ ''<h1>'' @ e @ '' Claude Code '' @
      (name source @ '' '' @ version latest) @ '' Released</h1>'' @ post"
    by (simp add: mp emailPayload_def)
  moreover have "subject m = subject_emoji @ '' Claude Code '' @
      (name source @ '' '' @ version latest) @ '' Released''"
    by (simp add: mp emailPayload_def)
  ultimately show ?thesis using h by blast
qed

lemma example_parsed:
  "parseLatestVersion example_doc =
     Some \<lparr>version = ''2.0.74'', content = ''## 2.0.74'' @ nl # ''Fix: bar''\<rparr>"
  unfolding example_doc_def by code_simp

lemma example_env_fields [simp]:
  "truthy (GEMINI_API_KEY example_env)" "truthy (RESEND_API_KEY example_env)"
  "truthy (NOTIFY_EMAIL example_env)"
  "http_get example_env k u = Inr (200, example_doc)"
  "gemini_analyze example_env k c = Inr (Some example_analysis)"
  "gemini_tts example_env k t v = Inr None"
  "resend_send example_env k m = Inr True"
  "current_timestamp example_env k = k"
  by (simp_all add: example_env_def truthy_def)

lemma example_send:
  "send_stage example_env source latest a None st =
     (Inr (), console_log (''[Monitor] Notification sent for '' @ name source @ '' '' @ version latest)
        (markVersionNotified (version latest) (src_id source)
          (emit (MailerCall (emailPayload example_env a None))
            (console_log (''[Monitor] Sending notification email for '' @ name source @ ''...'') st))))"
  by (simp add: send_stage_def Let_def sendEmailWithAttachment_run)

lemma example_audio:
  "audio_stage example_env source latest a st =
     send_stage example_env source latest a None
       (emit (TTSCall (tldr a) (case get_setting ''notificationVoice'' st of
                      None \<Rightarrow> ''Charon''
                    | Some v \<Rightarrow> if v = [] then ''Charon'' else v))
         (console_log (''[Monitor] Generating audio for '' @ name source @ ''...'') st))"
  by (simp add: audio_stage_def Let_def generateTTSAudio_def)

lemma example_notify:
  "notify_stages example_env source latest st =
     audio_stage example_env source latest
       (example_analysis\<lparr>data_version := name source @ '' '' @ version latest\<rparr>)
       (emit (AnalyzerCall (content latest))
         (console_log (''[Monitor] Analyzing changelog for '' @ name source @ ''...'') st))"
  by (simp add: notify_stages_def Let_def analyzeChangelog_def)

lemma example_state [simp]:
  "console notifications_on = []" "changelog_history notifications_on = []"
  "get_setting ''emailNotificationsEnabled'' notifications_on = Some ''true''"
  "get_setting ''notificationVoice'' notifications_on = None"
  by (simp_all add: notifications_on_def two_sources_def initial_server_def put_setting_def
      get_setting_def)

lemma example_source [simp]:
  "src_id default_source = ''src_claude_code''" "name default_source = ''Claude Code''"
  by (simp_all add: default_source_def)

lemma example_try:
  "checkSource_try example_env default_source notifications_on =
     notify_stages example_env default_source
       \<lparr>version = ''2.0.74'', content = ''## 2.0.74'' @ nl # ''Fix: bar''\<rparr>
       (saveVersion ''2.0.74'' ''src_claude_code'' (Suc (Suc (Suc (Suc 0))))
         (console_log ''[Monitor] Claude Code: New version detected: 2.0.74''
           (console_log ''[Monitor] Claude Code: Latest: 2.0.74, Last known: null''
             (emit (HttpGet (url default_source))
               (console_log (''[Monitor] Checking source: Claude Code ('' @ url default_source @ '')'')
                 notifications_on)))))"
  by (simp add: checkSource_try_def Let_def fetchChangelog_def example_parsed record_stage_cases
      getLastKnownVersion_def show_null_def)

lemma example_mails:
  "List.map_filter mail_of (added notifications_on
      (snd (checkSourceForNewChangelog example_env default_source notifications_on))) =
   [example_mail]"
  by (simp add: checkSourceForNewChangelog_def example_try example_notify example_audio
      example_send added_def List.map_filter_simps example_mail_def)

lemma example_history:
  "changelog_history
      (snd (checkSourceForNewChangelog example_env default_source notifications_on)) =
   [\<lparr>row_version = ''2.0.74'', detected_at = 4, notified = True,
     source_id = Some ''src_claude_code''\<rparr>]"
  by (simp add: checkSourceForNewChangelog_def example_try example_notify example_audio
      example_send markVersionNotified_def saveVersion_def)

lemma gate_closed_state:
  assumes "http_get env (Suc (length (console st))) (url source) = Inr (status, markdown)"
    and "200 \<le> status" and "status < 300"
    and "parseLatestVersion markdown = Some latest"
    and "getLastKnownVersion (Some (src_id source)) st \<noteq> Some (version latest)"
    and "get_setting ''emailNotificationsEnabled'' st \<noteq> Some ''true''"
  shows "checkSourceForNewChangelog env source st =
     (Inr (),
      console_log (''[Monitor] Email notifications disabled for '' @ name source @ '', skipping'')
        (saveVersion (version latest) (src_id source)
           (current_timestamp env (length (console st) + 4))
           (console_log (''[Monitor] '' @ name source @ '': New version detected: '' @ version latest)
              (console_log (''[Monitor] '' @ name source @ '': Latest: '' @ version latest @
                   '', Last known: '' @ show_null (getLastKnownVersion (Some (src_id source)) st))
                 (emit (HttpGet (url source))
                    (console_log (''[Monitor] Checking source: '' @ name source @ '' ('' @
                       url source @ '')'') st))))))"
proof -
  define st1 where "st1 = console_log (''[Monitor] Checking source: '' @ name source @ '' ('' @
      url source @ '')'') st"
  define st2 where "st2 = emit (HttpGet (url source)) st1"
  have f: "fetchChangelog env (url source) st1 = (Inr markdown, st2)"
    using assms(1-3) by (simp add: fetchChangelog_def st1_def st2_def)
  have lk: "getLastKnownVersion (Some (src_id source)) st2 =
      getLastKnownVersion (Some (src_id source)) st"
    by (rule getLastKnownVersion_history) (simp add: st2_def st1_def)
  have g: "get_setting ''emailNotificationsEnabled'' st2 =
      get_setting ''emailNotificationsEnabled'' st"
    by (simp add: st2_def st1_def)
  have "checkSource_try env source st = record_stage env source latest st2"
    unfolding checkSource_try_def Let_def st1_def [symmetric]
    by (simp only: f prod.case sum.case assms(4) option.case)
  also have "\<dots> = (Inr (),
      console_log (''[Monitor] Email notifications disabled for '' @ name source @ '', skipping'')
        (saveVersion (version latest) (src_id source)
           (current_timestamp env (length (console st) + 4))
           (console_log (''[Monitor] '' @ name source @ '': New version detected: '' @ version latest)
              (console_log (''[Monitor] '' @ name source @ '': Latest: '' @ version latest @
                   '', Last known: '' @ show_null (getLastKnownVersion (Some (src_id source)) st))
                 st2))))"
  proof -
    have four: "n + 4 = Suc (Suc (Suc (Suc n)))" for n :: nat by simp
    from assms(5,6) show ?thesis
      by (simp add: record_stage_cases lk g) (simp add: st2_def st1_def four)
  qed
  finally show ?thesis
    by (simp add: checkSourceForNewChangelog_def st2_def st1_def)
qed

lemma gate_closed_run:
  assumes "http_get env (Suc (length (console st))) (url source) = Inr (status, markdown)"
    and "200 \<le> status" and "status < 300"
    and "parseLatestVersion markdown = Some latest"
    and "getLastKnownVersion (Some (src_id source)) st \<noteq> Some (version latest)"
    and "get_setting ''emailNotificationsEnabled'' st \<noteq> Some ''true''"
  shows "fst (checkSourceForNewChangelog env source st) = Inr ()"
    and "list_all (\<lambda>e. \<not> is_service_call e)
      (added st (snd (checkSourceForNewChangelog env source st)))"
    and "changelog_history (snd (checkSourceForNewChangelog env source st)) =
      changelog_history (saveVersion (version latest) (src_id source)
        (current_timestamp env (length (console st) + 4)) st)"
    and "changelog_sources (snd (checkSourceForNewChangelog env source st)) =
      changelog_sources (saveVersion (version latest) (src_id source)
        (current_timestamp env (length (console st) + 4)) st)"
  unfolding gate_closed_state [OF assms]
  by (simp_all add: added_def saveVersion_def)

text \<open>
  The gate where the history has no row of the version yet: the row of the version and
  the source is there afterwards, the source carries the version and the time of the
  check, and no service is called.
\<close>

lemma gate_closed_records:
  assumes "http_get env (Suc (length (console st))) (url source) = Inr (status, markdown)"
    and "200 \<le> status" and "status < 300"
    and "parseLatestVersion markdown = Some latest"
    and "getLastKnownVersion (Some (src_id source)) st \<noteq> Some (version latest)"
    and "get_setting ''emailNotificationsEnabled'' st \<noteq> Some ''true''"
    and "version latest \<notin> set (map row_version (changelog_history st))"
  shows "has_record (version latest) (src_id source)
      (snd (checkSourceForNewChangelog env source st)) \<and>
    list_all (\<lambda>e. \<not> is_service_call e)
      (added st (snd (checkSourceForNewChangelog env source st))) \<and>
    list_all (\<lambda>s. src_id s = src_id source \<longrightarrow> last_version s = Some (version latest) \<and>
        last_checked_at s = Some (current_timestamp env (length (console st) + 4)))
      (changelog_sources (snd (checkSourceForNewChangelog env source st)))"
proof -
  note run = gate_closed_run [OF assms(1-6)]
  have "has_record (version latest) (src_id source)
      (saveVersion (version latest) (src_id source)
        (current_timestamp env (length (console st) + 4)) st)"
    using assms(7) by (simp add: has_record_def saveVersion_def)
  then have "has_record (version latest) (src_id source)
      (snd (checkSourceForNewChangelog env source st))"
    by (simp only: has_record_history [OF run(3)])
  moreover have "list_all (\<lambda>s. src_id s = src_id source \<longrightarrow>
        last_version s = Some (version latest) \<and>
        last_checked_at s = Some (current_timestamp env (length (console st) + 4)))
      (changelog_sources (snd (checkSourceForNewChangelog env source st)))"
    unfolding run(4) by (auto simp: saveVersion_def list_all_iff)
  ultimately show ?thesis using run(2) by blast
qed

text \<open>
  C5, at the inputs where the code departs from it: the gate holds back every call of a
  service, but when a row of another source already has the version, the cycle leaves the
  history as it is, with no row for the version and this source.
\<close>

theorem gate_closed_second_source:
  assumes "http_get env (Suc (length (console st))) (url source) = Inr (status, markdown)"
    and "200 \<le> status" and "status < 300"
    and "parseLatestVersion markdown = Some latest"
    and "getLastKnownVersion (Some (src_id source)) st \<noteq> Some (version latest)"
    and "get_setting ''emailNotificationsEnabled'' st \<noteq> Some ''true''"
    and "version latest \<in> set (map row_version (changelog_history st))"
    and "\<not> has_record (version latest) (src_id source) st"
  shows "fst (checkSourceForNewChangelog env source st) = Inr () \<and>
    list_all (\<lambda>e. \<not> is_service_call e)
      (added st (snd (checkSourceForNewChangelog env source st))) \<and>
    changelog_history (snd (checkSourceForNewChangelog env source st)) = changelog_history st \<and>
    \<not> has_record (version latest) (src_id source)
      (snd (checkSourceForNewChangelog env source st))"
proof -
  note run = gate_closed_run [OF assms(1-6)]
  from assms(7) have h: "changelog_history (snd (checkSourceForNewChangelog env source st)) =
      changelog_history st"
    unfolding run(3) by (simp add: saveVersion_def)
  from assms(8) have "\<not> has_record (version latest) (src_id source)
      (snd (checkSourceForNewChangelog env source st))"
    by (simp add: has_record_history [OF h])
  with run(1,2) h show ?thesis by blast
qed

lemma other_recorded_state [simp]:
  "console other_recorded = []"
  "changelog_history other_recorded =
     [\<lparr>row_version = ''2.0.74'', detected_at = 1, notified = False, source_id = Some ''src_2''\<rparr>]"
  "get_setting ''emailNotificationsEnabled'' other_recorded = None"
  by (simp_all add: other_recorded_def two_sources_def initial_server_def saveVersion_def
      get_setting_def)

theorem gate_closed_second_source_witness:
  "http_get example_env (Suc (length (console other_recorded))) (url default_source) =
     Inr (200, example_doc) \<and>
   parseLatestVersion example_doc =
     Some \<lparr>version = ''2.0.74'', content = ''## 2.0.74'' @ nl # ''Fix: bar''\<rparr> \<and>
   getLastKnownVersion (Some (src_id default_source)) other_recorded = None \<and>
   get_setting ''emailNotificationsEnabled'' other_recorded = None \<and>
   \<not> has_record ''2.0.74'' ''src_claude_code'' other_recorded \<and>
   fst (checkSourceForNewChangelog example_env default_source other_recorded) = Inr () \<and>
   list_all (\<lambda>e. \<not> is_service_call e)
      (added other_recorded
        (snd (checkSourceForNewChangelog example_env default_source other_recorded))) \<and>
   changelog_history (snd (checkSourceForNewChangelog example_env default_source other_recorded)) =
     [\<lparr>row_version = ''2.0.74'', detected_at = 1, notified = False, source_id = Some ''src_2''\<rparr>] \<and>
   \<not> has_record ''2.0.74'' ''src_claude_code''
      (snd (checkSourceForNewChangelog example_env default_source other_recorded))"
proof -
  let ?latest = "\<lparr>version = ''2.0.74'', content = ''## 2.0.74'' @ nl # ''Fix: bar''\<rparr>"
  have a1: "http_get example_env (Suc (length (console other_recorded))) (url default_source) =
     Inr (200, example_doc)" by simp
  have a2: "(200 :: nat) \<le> 200" and a3: "(200 :: nat) < 300" by simp_all
  have a4: "parseLatestVersion example_doc = Some ?latest" by (rule example_parsed)
  have lk: "getLastKnownVersion (Some (src_id default_source)) other_recorded = None"
    by (simp add: getLastKnownVersion_def)
  then have a5: "getLastKnownVersion (Some (src_id default_source)) other_recorded \<noteq>
      Some (version ?latest)" by simp
  have a6: "get_setting ''emailNotificationsEnabled'' other_recorded \<noteq> Some ''true''" by simp
  have a7: "version ?latest \<in> set (map row_version (changelog_history other_recorded))" by simp
  have a8: "\<not> has_record (version ?latest) (src_id default_source) other_recorded"
    by (simp add: has_record_def)
  from gate_closed_second_source [OF a1 a2 a3 a4 a5 a6 a7 a8] a1 a4 lk a8
  show ?thesis by simp
qed

text \<open>
  Where another source has recorded the version, the history has no row for the version
  and the source of the cycle: the service accepts the request, nothing is marked, and the
  version stays unknown for the source.
\<close>

lemma other_recorded_on_state [simp]:
  "console other_recorded_on = []"
  "changelog_history other_recorded_on =
     [\<lparr>row_version = ''2.0.74'', detected_at = 1, notified = False, source_id = Some ''src_2''\<rparr>]"
  "get_setting ''emailNotificationsEnabled'' other_recorded_on = Some ''true''"
  "get_setting ''notificationVoice'' other_recorded_on = None"
  by (simp_all add: other_recorded_on_def other_recorded_def two_sources_def initial_server_def
      saveVersion_def put_setting_def get_setting_def)

lemma other_recorded_on_try:
  "checkSource_try example_env default_source other_recorded_on =
     notify_stages example_env default_source
       \<lparr>version = ''2.0.74'', content = ''## 2.0.74'' @ nl # ''Fix: bar''\<rparr>
       (saveVersion ''2.0.74'' ''src_claude_code'' (Suc (Suc (Suc (Suc 0))))
         (console_log ''[Monitor] Claude Code: New version detected: 2.0.74''
           (console_log ''[Monitor] Claude Code: Latest: 2.0.74, Last known: null''
             (emit (HttpGet (url default_source))
               (console_log (''[Monitor] Checking source: Claude Code ('' @ url default_source @ '')'')
                 other_recorded_on)))))"
  by (simp add: checkSource_try_def Let_def fetchChangelog_def example_parsed record_stage_cases
      getLastKnownVersion_def show_null_def)

lemma sent_without_row:
  "sent_ok example_env other_recorded_on
     (snd (checkSourceForNewChangelog example_env default_source other_recorded_on)) \<and>
   \<not> has_record ''2.0.74'' ''src_claude_code''
     (snd (checkSourceForNewChangelog example_env default_source other_recorded_on)) \<and>
   \<not> is_notified ''2.0.74'' ''src_claude_code''
     (snd (checkSourceForNewChangelog example_env default_source other_recorded_on)) \<and>
   getLastKnownVersion (Some ''src_claude_code'')
     (snd (checkSourceForNewChangelog example_env default_source other_recorded_on)) = None"
proof -
  have h: "changelog_history
      (snd (checkSourceForNewChangelog example_env default_source other_recorded_on)) =
      [\<lparr>row_version = ''2.0.74'', detected_at = 1, notified = False, source_id = Some ''src_2''\<rparr>]"
    by (simp add: checkSourceForNewChangelog_def other_recorded_on_try example_notify
        example_audio example_send markVersionNotified_def saveVersion_def)
  have s: "sent_ok example_env other_recorded_on
     (snd (checkSourceForNewChangelog example_env default_source other_recorded_on))"
    by (simp add: sent_ok_def checkSourceForNewChangelog_def other_recorded_on_try
        example_notify example_audio example_send added_def)
  from h s show ?thesis
    by (simp add: has_record_def is_notified_def getLastKnownVersion_def)
qed


theorem notified_only_after_send_witness:
  "\<not> is_notified ''2.0.74'' ''src_claude_code'' notifications_on \<and>
   sent_ok example_env notifications_on
     (snd (checkSourceForNewChangelog example_env default_source notifications_on)) \<and>
   has_record ''2.0.74'' ''src_claude_code''
     (snd (checkSourceForNewChangelog example_env default_source notifications_on)) \<and>
   is_notified ''2.0.74'' ''src_claude_code''
     (snd (checkSourceForNewChangelog example_env default_source notifications_on)) \<and>
   is_notified ''2.0.74'' ''src_claude_code''
     (snd (checkSourceForNewChangelog example_env default_source
       (snd (checkSourceForNewChangelog example_env default_source notifications_on)))) \<and>
   \<not> sent_ok down_env notifications_on
     (snd (checkSourceForNewChangelog down_env default_source notifications_on)) \<and>
   \<not> is_notified ''2.0.74'' ''src_claude_code''
     (snd (checkSourceForNewChangelog down_env default_source notifications_on))"
proof -
  define st1 where
    "st1 = snd (checkSourceForNewChangelog example_env default_source notifications_on)"
  have a: "\<not> is_notified ''2.0.74'' ''src_claude_code'' notifications_on"
    by (simp add: is_notified_def)
  have c: "sent_ok example_env notifications_on st1"
    unfolding st1_def
    by (simp add: sent_ok_def checkSourceForNewChangelog_def example_try example_notify
        example_audio example_send added_def)
  have r: "has_record ''2.0.74'' ''src_claude_code'' st1"
    unfolding st1_def by (simp add: has_record_def example_history)
  note t = notified_only_after_send
    [of "''2.0.74''" "''src_claude_code''" notifications_on example_env default_source,
      folded st1_def]
  from t c obtain status markdown latest where
    h: "http_get example_env (Suc (length (console notifications_on))) (url default_source) =
        Inr (status, markdown)"
    and p: "parseLatestVersion markdown = Some latest"
    and f: "has_record (version latest) (src_id default_source) st1 \<longrightarrow>
        is_notified (version latest) (src_id default_source) st1"
    by blast
  from h have "markdown = example_doc" by simp
  with p have v: "version latest = ''2.0.74''" by (auto simp: example_parsed)
  from f r have b: "is_notified ''2.0.74'' ''src_claude_code'' st1" by (simp add: v)
  note k = notified_only_after_send
    [of "''2.0.74''" "''src_claude_code''" st1 example_env default_source]
  from k b have b': "is_notified ''2.0.74'' ''src_claude_code''
      (snd (checkSourceForNewChangelog example_env default_source st1))"
    by blast
  have "snd (checkSourceForNewChangelog down_env default_source notifications_on) =
      emit (ConsoleError ''[Monitor] Error checking Claude Code:'' (Error ''network down''))
        (emit (HttpGet (url default_source))
          (console_log (''[Monitor] Checking source: Claude Code ('' @ url default_source @ '')'')
            notifications_on))"
    by (simp add: checkSourceForNewChangelog_def checkSource_try_def Let_def fetchChangelog_def
        down_env_def example_env_def)
  then have d: "\<not> sent_ok down_env notifications_on
     (snd (checkSourceForNewChangelog down_env default_source notifications_on))"
    by (simp add: sent_ok_def added_def)
  note u = notified_only_after_send
    [of "''2.0.74''" "''src_claude_code''" notifications_on down_env default_source]
  from u d a have "\<not> is_notified ''2.0.74'' ''src_claude_code''
     (snd (checkSourceForNewChangelog down_env default_source notifications_on))"
    by blast
  with a b b' c d r show ?thesis unfolding st1_def by blast
qed

theorem notification_subject_witness:
  "example_mail \<in> set (List.map_filter mail_of (added notifications_on
      (snd (checkSourceForNewChangelog example_env default_source notifications_on)))) \<and>
   subject example_mail = subject_emoji @ '' Claude Code Claude Code 2.0.74 Released'' \<and>
   (\<exists>pre e post. html example_mail =
      pre @ ''<h1>'' @ e @ '' Claude Code Claude Code 2.0.74 Released</h1>'' @ post)"
proof -
  have a: "example_mail \<in> set (List.map_filter mail_of (added notifications_on
      (snd (checkSourceForNewChangelog example_env default_source notifications_on))))"
    by (simp add: example_mails)
  from notification_subject [OF a] obtain status markdown latest pre e post where
    h: "http_get example_env (Suc (length (console notifications_on))) (url default_source) =
        Inr (status, markdown)"
    and p: "parseLatestVersion markdown = Some latest"
    and s: "subject example_mail = subject_emoji @ '' Claude Code '' @
        (name default_source @ '' '' @ version latest) @ '' Released''"
    and b: "html example_mail = pre @ ''<h1>'' @ e @ '' Claude Code '' @
        (name default_source @ '' '' @ version latest) @ '' Released</h1>'' @ post"
    by blast
  from h have "markdown = example_doc" by simp
  with p have v: "version latest = ''2.0.74''" by (auto simp: example_parsed)
  from s have s': "subject example_mail = subject_emoji @ '' Claude Code Claude Code 2.0.74 Released''"
    by (simp add: v)
  from b have "html example_mail =
      pre @ ''<h1>'' @ e @ '' Claude Code Claude Code 2.0.74 Released</h1>'' @ post"
    by (simp add: v)
  with a s' show ?thesis by blast
qed

end
